theory Spec2Isabelle
  imports Complex_Main "HOL-Library.Sublist"
begin

section \<open>Time values and the civil calendar\<close>

text \<open>
  The calendar components work on JavaScript \<open>Date\<close> objects through the date-fns
  library.  A \<open>Date\<close> holds a time value, the number of milliseconds since
  1970-01-01T00:00:00Z, or NaN (an "Invalid Date").  The calendar fields of a time value
  are those of ECMA-262: \<open>Day\<close>, \<open>YearFromTime\<close>, \<open>MonthFromTime\<close>, \<open>DateFromTime\<close>,
  \<open>WeekDay\<close>, \<open>MakeDay\<close>, \<open>MakeTime\<close>, \<open>MakeDate\<close>.

  Three things of the engine are outside these definitions.  Local time is the time value
  shifted by one offset \<open>tza\<close> of the local time zone: a change of the offset (daylight
  saving) is not modelled, so properties are stated on local calendar days and not on
  distances in milliseconds.  Time values are unbounded integers: the engine makes a
  \<open>Date\<close> invalid beyond \<open>maxTime\<close> (8.64e15 ms) on either side, and the setters below
  agree with the engine's as long as their results stay within that range; the properties
  of the rendered views are stated for a \<open>currentDate\<close> that is \<open>farFromLimits\<close>, where
  they do.  Numbers are exact rationals: properties of computed pixel values allow for the
  rounding of double arithmetic.
\<close>

datatype jsdate = InvalidDate | Date int

definition msPerDay :: int where
  "msPerDay = 86400000"

definition msPerMinute :: int where
  "msPerMinute = 60000"

definition Day :: "int \<Rightarrow> int" where
  "Day t = t div msPerDay"

definition TimeWithinDay :: "int \<Rightarrow> int" where
  "TimeWithinDay t = t mod msPerDay"

definition InLeapYear :: "int \<Rightarrow> int" where
  "InLeapYear y =
     (if y mod 4 \<noteq> 0 then 0 else if y mod 100 \<noteq> 0 then 1 else if y mod 400 \<noteq> 0 then 0 else 1)"

definition DaysInYear :: "int \<Rightarrow> int" where
  "DaysInYear y = 365 + InLeapYear y"

definition DayFromYear :: "int \<Rightarrow> int" where
  "DayFromYear y =
     365 * (y - 1970) + (y - 1969) div 4 - (y - 1901) div 100 + (y - 1601) div 400"

lemma div_succ:
  assumes "0 < (n::int)"
  shows "(x + 1) div n = x div n + (if x mod n = n - 1 then 1 else 0)"
proof (cases "x mod n = n - 1")
  case True
  have "x = n * (x div n) + (n - 1)"
    using True mult_div_mod_eq [of n x] by simp
  then have "x + 1 = n * (x div n) + n" by linarith
  then have "x + 1 = n * (x div n + 1) + 0" by (simp add: algebra_simps)
  from int_div_pos_eq [OF this] assms True show ?thesis by simp
next
  case False
  have b: "0 \<le> x mod n" "x mod n < n" using assms by simp_all
  have "x + 1 = n * (x div n) + (x mod n + 1)"
    using mult_div_mod_eq [of n x] by linarith
  from int_div_pos_eq [OF this] b False show ?thesis by simp
qed

lemma succ_mod0:
  assumes "0 < (n::int)"
  shows "(x mod n = n - 1) = ((x + 1) mod n = 0)"
proof -
  have r: "0 \<le> x mod n" "x mod n < n" using assms by simp_all
  have e: "(x + 1) mod n = (x mod n + 1) mod n" by (simp add: mod_add_left_eq)
  show ?thesis
  proof (cases "x mod n = n - 1")
    case True
    then show ?thesis using e by simp
  next
    case False
    then have "x mod n + 1 < n" using r by linarith
    then have "(x mod n + 1) mod n = x mod n + 1" using r by simp
    then show ?thesis using False e r by linarith
  qed
qed

lemma mod_shift:
  assumes "0 < (n::int)" and "(k - 1) mod n = 0"
  shows "((y - k) mod n = n - 1) = (y mod n = 0)"
proof -
  have "((y - k) mod n = n - 1) = ((y - k + 1) mod n = 0)"
    by (rule succ_mod0 [OF assms(1)])
  also have "y - k + 1 = y - (k - 1)" by simp
  also have "((y - (k - 1)) mod n = 0) = ((y mod n - (k - 1) mod n) mod n = 0)"
    by (simp only: mod_diff_eq)
  also have "\<dots> = (y mod n = 0)" using assms(2) by simp
  finally show ?thesis .
qed

lemma dvd_mod0: "(a::int) dvd b \<Longrightarrow> y mod b = 0 \<Longrightarrow> y mod a = 0"
proof -
  assume a: "a dvd b" and "y mod b = 0"
  then have "b dvd y" by (simp add: dvd_eq_mod_eq_0)
  with a have "a dvd y" by (rule dvd_trans)
  then show ?thesis by simp
qed

lemma DayFromYear_step: "DayFromYear (y + 1) = DayFromYear y + DaysInYear y"
proof -
  have a: "(y + 1 - 1969) div 4 = (y - 1969) div 4 + (if y mod 4 = 0 then 1 else 0)"
    using div_succ [of 4 "y - 1969"] mod_shift [of 4 1969 y] by (simp add: algebra_simps)
  have b: "(y + 1 - 1901) div 100 = (y - 1901) div 100 + (if y mod 100 = 0 then 1 else 0)"
    using div_succ [of 100 "y - 1901"] mod_shift [of 100 1901 y] by (simp add: algebra_simps)
  have c: "(y + 1 - 1601) div 400 = (y - 1601) div 400 + (if y mod 400 = 0 then 1 else 0)"
    using div_succ [of 400 "y - 1601"] mod_shift [of 400 1601 y] by (simp add: algebra_simps)
  have d: "y mod 100 = 0 \<Longrightarrow> y mod 4 = 0" by (rule dvd_mod0 [of 4 100]) simp_all
  have e: "y mod 400 = 0 \<Longrightarrow> y mod 100 = 0" by (rule dvd_mod0 [of 100 400]) simp_all
  show ?thesis
    unfolding DayFromYear_def DaysInYear_def InLeapYear_def a b c
    using d e by auto
qed

lemma InLeapYear_range: "InLeapYear y = 0 \<or> InLeapYear y = 1"
  by (simp add: InLeapYear_def)

lemma DayFromYear_less: "DayFromYear y < DayFromYear (y + 1)"
  using InLeapYear_range [of y] by (auto simp: DayFromYear_step DaysInYear_def)

text \<open>
  \<open>YearFromTime(t)\<close> is the largest year \<open>y\<close> with \<open>DayFromYear(y) \<le> Day(t)\<close>.  It is
  computed by a search upwards from a year that is not after it.
\<close>

function yearSearch :: "int \<Rightarrow> int \<Rightarrow> int" where
  "yearSearch d y = (if DayFromYear (y + 1) \<le> d then yearSearch d (y + 1) else y)"
  by pat_completeness auto
termination
proof (relation "measure (\<lambda>(d, y). nat (d - DayFromYear y))")
  show "wf (measure (\<lambda>(d, y). nat (d - DayFromYear y)))" by simp
next
  fix d y :: int
  assume "DayFromYear (y + 1) \<le> d"
  then show "((d, y + 1), (d, y)) \<in> measure (\<lambda>(d, y). nat (d - DayFromYear y))"
    using DayFromYear_less [of y] by simp
qed

declare yearSearch.simps [simp del]

definition YearFromDay :: "int \<Rightarrow> int" where
  "YearFromDay d = yearSearch d (1970 + (if 0 \<le> d then d div 366 else d div 365))"

definition DayWithinYear :: "int \<Rightarrow> int" where
  "DayWithinYear d = d - DayFromYear (YearFromDay d)"

definition MonthFromDay :: "int \<Rightarrow> int" where
  "MonthFromDay d =
     (let w = DayWithinYear d; l = InLeapYear (YearFromDay d) in
      if w < 31 then 0
      else if w < 59 + l then 1
      else if w < 90 + l then 2
      else if w < 120 + l then 3
      else if w < 151 + l then 4
      else if w < 181 + l then 5
      else if w < 212 + l then 6
      else if w < 243 + l then 7
      else if w < 273 + l then 8
      else if w < 304 + l then 9
      else if w < 334 + l then 10
      else 11)"

definition monthStartDay :: "int \<Rightarrow> int \<Rightarrow> int" where
  "monthStartDay m l =
     (if m = 0 then 0
      else if m = 1 then 31
      else if m = 2 then 59 + l
      else if m = 3 then 90 + l
      else if m = 4 then 120 + l
      else if m = 5 then 151 + l
      else if m = 6 then 181 + l
      else if m = 7 then 212 + l
      else if m = 8 then 243 + l
      else if m = 9 then 273 + l
      else if m = 10 then 304 + l
      else 334 + l)"

definition DateFromDay :: "int \<Rightarrow> int" where
  "DateFromDay d =
     DayWithinYear d - monthStartDay (MonthFromDay d) (InLeapYear (YearFromDay d)) + 1"

definition YearFromTime :: "int \<Rightarrow> int" where
  "YearFromTime t = YearFromDay (Day t)"

definition MonthFromTime :: "int \<Rightarrow> int" where
  "MonthFromTime t = MonthFromDay (Day t)"

definition DateFromTime :: "int \<Rightarrow> int" where
  "DateFromTime t = DateFromDay (Day t)"

definition WeekDay :: "int \<Rightarrow> int" where
  "WeekDay t = (Day t + 4) mod 7"

definition HourFromTime :: "int \<Rightarrow> int" where
  "HourFromTime t = (t div 3600000) mod 24"

definition MinFromTime :: "int \<Rightarrow> int" where
  "MinFromTime t = (t div 60000) mod 60"

definition MakeTime :: "int \<Rightarrow> int \<Rightarrow> int \<Rightarrow> int \<Rightarrow> int" where
  "MakeTime hour minute sec ms = hour * 3600000 + minute * 60000 + sec * 1000 + ms"

definition MakeDay :: "int \<Rightarrow> int \<Rightarrow> int \<Rightarrow> int" where
  "MakeDay year month date =
     (let ym = year + month div 12; mn = month mod 12
      in DayFromYear ym + monthStartDay mn (InLeapYear ym) + date - 1)"

definition MakeDate :: "int \<Rightarrow> int \<Rightarrow> int" where
  "MakeDate day time = day * msPerDay + time"

definition LocalTime :: "int \<Rightarrow> int \<Rightarrow> int" where
  "LocalTime tza t = t + tza"

definition UTC :: "int \<Rightarrow> int \<Rightarrow> int" where
  "UTC tza t = t - tza"

subsection \<open>Years, months and days of the month\<close>

lemma yearSearch_bounds:
  "DayFromYear y0 \<le> d \<Longrightarrow>
   DayFromYear (yearSearch d y0) \<le> d \<and> d < DayFromYear (yearSearch d y0 + 1)"
proof (induction d y0 rule: yearSearch.induct)
  case (1 d y)
  show ?case
  proof (cases "DayFromYear (y + 1) \<le> d")
    case True
    with "1.IH" have "DayFromYear (yearSearch d (y + 1)) \<le> d \<and> d < DayFromYear (yearSearch d (y + 1) + 1)"
      by simp
    moreover have "yearSearch d y = yearSearch d (y + 1)"
      using True by (subst yearSearch.simps) simp
    ultimately show ?thesis by simp
  next
    case False
    then have "yearSearch d y = y" by (subst yearSearch.simps) simp
    with False "1.prems" show ?thesis by simp
  qed
qed

lemma DayFromYear_1970: "DayFromYear 1970 = 0"
  by (simp add: DayFromYear_def)

lemma DayFromYear_upper: "0 \<le> k \<Longrightarrow> DayFromYear (1970 + k) \<le> 366 * k"
proof (induction k rule: int_ge_induct)
  case base
  show ?case by (simp add: DayFromYear_1970)
next
  case (step i)
  have "DayFromYear (1970 + (i + 1)) = DayFromYear (1970 + i) + DaysInYear (1970 + i)"
    using DayFromYear_step [of "1970 + i"] by (simp add: add.assoc)
  with step.IH InLeapYear_range [of "1970 + i"] show ?case
    by (auto simp: DaysInYear_def)
qed

lemma DayFromYear_lower: "k \<le> 0 \<Longrightarrow> DayFromYear (1970 + k) \<le> 365 * k"
proof (induction k rule: int_le_induct)
  case base
  show ?case by (simp add: DayFromYear_1970)
next
  case (step i)
  have "DayFromYear (1970 + i) = DayFromYear (1970 + (i - 1)) + DaysInYear (1970 + (i - 1))"
    using DayFromYear_step [of "1970 + (i - 1)"] by (simp add: add.assoc)
  with step.IH InLeapYear_range [of "1970 + (i - 1)"] show ?case
    by (auto simp: DaysInYear_def)
qed

lemma year_guess: "DayFromYear (1970 + (if 0 \<le> d then d div 366 else d div 365)) \<le> d"
proof (cases "0 \<le> d")
  case True
  then have "0 \<le> d div 366" by simp
  from DayFromYear_upper [OF this] have "DayFromYear (1970 + d div 366) \<le> 366 * (d div 366)" .
  also have "\<dots> \<le> d" using True by simp
  finally show ?thesis using True by simp
next
  case False
  then have "d div 365 < 0" by (intro div_neg_pos_less0) simp_all
  then have "d div 365 \<le> 0" by simp
  from DayFromYear_lower [OF this] have "DayFromYear (1970 + d div 365) \<le> 365 * (d div 365)" .
  also have "\<dots> \<le> d" by simp
  finally show ?thesis using False by simp
qed

lemma YearFromDay_bounds:
  "DayFromYear (YearFromDay d) \<le> d \<and> d < DayFromYear (YearFromDay d + 1)"
  unfolding YearFromDay_def by (rule yearSearch_bounds [OF year_guess])

lemma DayFromYear_mono: "y \<le> y' \<Longrightarrow> DayFromYear y \<le> DayFromYear y'"
proof (induction y' rule: int_ge_induct)
  case base
  show ?case by simp
next
  case (step i)
  with DayFromYear_less [of i] show ?case by simp
qed

lemma YearFromDay_unique:
  assumes "DayFromYear y \<le> d" and "d < DayFromYear (y + 1)"
  shows "YearFromDay d = y"
proof -
  let ?z = "YearFromDay d"
  have b: "DayFromYear ?z \<le> d" "d < DayFromYear (?z + 1)"
    using YearFromDay_bounds [of d] by simp_all
  have "\<not> ?z < y"
  proof
    assume "?z < y"
    then have "DayFromYear (?z + 1) \<le> DayFromYear y" by (intro DayFromYear_mono) simp
    with b assms show False by simp
  qed
  moreover have "\<not> y < ?z"
  proof
    assume "y < ?z"
    then have "DayFromYear (y + 1) \<le> DayFromYear ?z" by (intro DayFromYear_mono) simp
    with b assms show False by simp
  qed
  ultimately show ?thesis by simp
qed

lemma DayWithinYear_bounds:
  "0 \<le> DayWithinYear d \<and> DayWithinYear d < 365 + InLeapYear (YearFromDay d)"
  using YearFromDay_bounds [of d] DayFromYear_step [of "YearFromDay d"]
  by (simp add: DayWithinYear_def DaysInYear_def)

lemma MakeDay_in_year:
  "0 \<le> m \<Longrightarrow> m < 12 \<Longrightarrow> MakeDay y m dt = DayFromYear y + monthStartDay m (InLeapYear y) + dt - 1"
  by (simp add: MakeDay_def)

lemma MonthFromDay_range: "0 \<le> MonthFromDay d \<and> MonthFromDay d < 12"
  by (simp add: MonthFromDay_def Let_def)

lemma MakeDay_fields:
  "MakeDay (YearFromDay d) (MonthFromDay d) (DateFromDay d + k) = d + k"
  using MonthFromDay_range [of d]
  by (simp add: MakeDay_in_year DateFromDay_def DayWithinYear_def)

section \<open>Date objects and the date-fns functions the components call\<close>

text \<open>
  The methods of a valid \<open>Date\<close> with time value \<open>t\<close>, read and written in local time.
  A setter returns the new time value of the object it mutates.
\<close>

definition getFullYear :: "int \<Rightarrow> int \<Rightarrow> int" where
  "getFullYear tza t = YearFromTime (LocalTime tza t)"

definition getMonth :: "int \<Rightarrow> int \<Rightarrow> int" where
  "getMonth tza t = MonthFromTime (LocalTime tza t)"

definition getDate :: "int \<Rightarrow> int \<Rightarrow> int" where
  "getDate tza t = DateFromTime (LocalTime tza t)"

definition getDay :: "int \<Rightarrow> int \<Rightarrow> int" where
  "getDay tza t = WeekDay (LocalTime tza t)"

definition getHours :: "int \<Rightarrow> int \<Rightarrow> int" where
  "getHours tza t = HourFromTime (TimeWithinDay (LocalTime tza t))"

definition getMinutes :: "int \<Rightarrow> int \<Rightarrow> int" where
  "getMinutes tza t = MinFromTime (TimeWithinDay (LocalTime tza t))"

definition setDate :: "int \<Rightarrow> int \<Rightarrow> int \<Rightarrow> int" where
  "setDate tza t dt =
     (let lt = LocalTime tza t
      in UTC tza (MakeDate (MakeDay (YearFromTime lt) (MonthFromTime lt) dt) (TimeWithinDay lt)))"

definition setFullYear :: "int \<Rightarrow> int \<Rightarrow> int \<Rightarrow> int \<Rightarrow> int \<Rightarrow> int" where
  "setFullYear tza t y m dt =
     UTC tza (MakeDate (MakeDay y m dt) (TimeWithinDay (LocalTime tza t)))"

definition setHours :: "int \<Rightarrow> int \<Rightarrow> int \<Rightarrow> int \<Rightarrow> int \<Rightarrow> int \<Rightarrow> int" where
  "setHours tza t h m s ms = UTC tza (MakeDate (Day (LocalTime tza t)) (MakeTime h m s ms))"

text \<open>
  date-fns copies its argument before it mutates the copy, and every function below
  returns an Invalid Date for an Invalid Date: the getters give NaN and the setters keep
  NaN.
\<close>

fun startOfDay :: "int \<Rightarrow> jsdate \<Rightarrow> jsdate" where
  "startOfDay tza InvalidDate = InvalidDate"
| "startOfDay tza (Date t) = Date (setHours tza t 0 0 0 0)"

fun startOfMonth :: "int \<Rightarrow> jsdate \<Rightarrow> jsdate" where
  "startOfMonth tza InvalidDate = InvalidDate"
| "startOfMonth tza (Date t) = Date (setHours tza (setDate tza t 1) 0 0 0 0)"

fun endOfMonth :: "int \<Rightarrow> jsdate \<Rightarrow> jsdate" where
  "endOfMonth tza InvalidDate = InvalidDate"
| "endOfMonth tza (Date t) =
     (let month = getMonth tza t;
          t1 = setFullYear tza t (getFullYear tza t) (month + 1) 0
      in Date (setHours tza t1 23 59 59 999))"

fun startOfWeek :: "int \<Rightarrow> int \<Rightarrow> jsdate \<Rightarrow> jsdate" where
  "startOfWeek tza weekStartsOn InvalidDate = InvalidDate"
| "startOfWeek tza weekStartsOn (Date t) =
     (let day = getDay tza t;
          diff = (if day < weekStartsOn then 7 else 0) + day - weekStartsOn;
          t1 = setDate tza t (getDate tza t - diff)
      in Date (setHours tza t1 0 0 0 0))"

fun endOfWeek :: "int \<Rightarrow> int \<Rightarrow> jsdate \<Rightarrow> jsdate" where
  "endOfWeek tza weekStartsOn InvalidDate = InvalidDate"
| "endOfWeek tza weekStartsOn (Date t) =
     (let day = getDay tza t;
          diff = (if day < weekStartsOn then - 7 else 0) + 6 - (day - weekStartsOn);
          t1 = setDate tza t (getDate tza t + diff)
      in Date (setHours tza t1 23 59 59 999))"

fun addMinutes :: "jsdate \<Rightarrow> int \<Rightarrow> jsdate" where
  "addMinutes InvalidDate amount = InvalidDate"
| "addMinutes (Date t) amount = Date (t + amount * msPerMinute)"

text \<open>
  \<open>isSameDay\<close> compares the time values of the two starts of day with \<open>===\<close>, and
  \<open>isSameMonth\<close> the years and the months: NaN is equal to nothing, itself included.
\<close>

fun isSameDay :: "int \<Rightarrow> jsdate \<Rightarrow> jsdate \<Rightarrow> bool" where
  "isSameDay tza laterDate earlierDate =
     (case (startOfDay tza laterDate, startOfDay tza earlierDate) of
        (Date x, Date y) \<Rightarrow> x = y
      | _ \<Rightarrow> False)"

fun isSameMonth :: "int \<Rightarrow> jsdate \<Rightarrow> jsdate \<Rightarrow> bool" where
  "isSameMonth tza (Date x) (Date y) =
     (getFullYear tza x = getFullYear tza y \<and> getMonth tza x = getMonth tza y)"
| "isSameMonth tza _ _ = False"

text \<open>\<open>isToday\<close> reads the system clock: \<open>now\<close> is the value of \<open>Date.now()\<close>.\<close>

definition isToday :: "int \<Rightarrow> int \<Rightarrow> jsdate \<Rightarrow> bool" where
  "isToday tza now date = isSameDay tza date (Date now)"

subsection \<open>Moving a date by whole days\<close>

lemma msPerDay_pos: "0 < msPerDay"
  by (simp add: msPerDay_def)

lemma LocalTime_UTC: "LocalTime tza (UTC tza t) = t"
  by (simp add: LocalTime_def UTC_def)

lemma Day_MakeDate: "0 \<le> tm \<Longrightarrow> tm < msPerDay \<Longrightarrow> Day (MakeDate d tm) = d"
  unfolding Day_def MakeDate_def using msPerDay_pos
  by (simp add: div_pos_pos_trivial)

lemma TimeWithinDay_MakeDate:
  "0 \<le> tm \<Longrightarrow> tm < msPerDay \<Longrightarrow> TimeWithinDay (MakeDate d tm) = tm"
  unfolding TimeWithinDay_def MakeDate_def by simp

lemma TimeWithinDay_range: "0 \<le> TimeWithinDay t \<and> TimeWithinDay t < msPerDay"
  unfolding TimeWithinDay_def using msPerDay_pos by simp

lemma MakeDate_Day: "MakeDate (Day t) (TimeWithinDay t) = t"
  by (simp add: MakeDate_def Day_def TimeWithinDay_def)

lemma setDate_shift:
  "LocalTime tza (setDate tza t (getDate tza t + k)) =
     MakeDate (Day (LocalTime tza t) + k) (TimeWithinDay (LocalTime tza t))"
  by (simp add: setDate_def Let_def LocalTime_UTC getDate_def YearFromTime_def
      MonthFromTime_def DateFromTime_def MakeDay_fields)

lemma Day_setDate_shift:
  "Day (LocalTime tza (setDate tza t (getDate tza t + k))) = Day (LocalTime tza t) + k"
  using TimeWithinDay_range [of "LocalTime tza t"]
  by (simp add: setDate_shift Day_MakeDate)

lemma setHours_midnight: "setHours tza t 0 0 0 0 = UTC tza (MakeDate (Day (LocalTime tza t)) 0)"
  by (simp add: setHours_def MakeTime_def)

lemma next_midnight:
  "setHours tza (setDate tza t (getDate tza t + 1)) 0 0 0 0 =
     UTC tza (MakeDate (Day (LocalTime tza t) + 1) 0)"
  by (simp add: setHours_midnight Day_setDate_shift)

lemma next_midnight_greater: "t < setHours tza (setDate tza t (getDate tza t + 1)) 0 0 0 0"
proof -
  let ?lt = "LocalTime tza t"
  have "?lt = MakeDate (Day ?lt) (TimeWithinDay ?lt)" by (simp add: MakeDate_Day)
  also have "\<dots> < MakeDate (Day ?lt + 1) 0"
    using TimeWithinDay_range [of ?lt] by (simp add: MakeDate_def algebra_simps)
  finally show ?thesis
    by (simp add: next_midnight UTC_def LocalTime_def)
qed

text \<open>
  \<open>eachDayOfInterval\<close> (date-fns 3 and 4): the start is moved to its start of day and
  advanced by \<open>setDate(getDate() + 1); setHours(0, 0, 0, 0)\<close> while it is not after the
  end; a reversed interval gives the days in reverse.  A comparison with NaN is false, so
  an interval with an Invalid Date has no days.
\<close>

function eachDayLoop :: "int \<Rightarrow> int \<Rightarrow> int \<Rightarrow> jsdate list" where
  "eachDayLoop tza date endTime =
     (if date \<le> endTime
      then Date date #
           eachDayLoop tza (setHours tza (setDate tza date (getDate tza date + 1)) 0 0 0 0) endTime
      else [])"
  by pat_completeness auto
termination
proof (relation "measure (\<lambda>(tza, date, endTime). nat (endTime + 1 - date))")
  show "wf (measure (\<lambda>(tza, date, endTime). nat (endTime + 1 - date)))" by simp
next
  fix tza date endTime :: int
  assume "date \<le> endTime"
  then show "((tza, setHours tza (setDate tza date (getDate tza date + 1)) 0 0 0 0, endTime),
              (tza, date, endTime))
             \<in> measure (\<lambda>(tza, date, endTime). nat (endTime + 1 - date))"
    using next_midnight_greater [of date tza] by simp
qed

declare eachDayLoop.simps [simp del]

fun eachDayOfInterval :: "int \<Rightarrow> jsdate \<Rightarrow> jsdate \<Rightarrow> jsdate list" where
  "eachDayOfInterval tza (Date s) (Date e) =
     (let reversed = (s > e);
          endTime = (if reversed then s else e);
          date = setHours tza (if reversed then e else s) 0 0 0 0;
          dates = eachDayLoop tza date endTime
      in if reversed then rev dates else dates)"
| "eachDayOfInterval tza _ _ = []"

text \<open>
  \<open>differenceInMinutes\<close> divides the difference of the time values by 60000 and rounds
  towards zero; with an Invalid Date the result is NaN.  JavaScript numbers are modelled
  as exact rationals with NaN; the rounding of floating-point operations is not modelled.
\<close>

datatype jsnum = NaN | Num rat

definition trunc_div :: "int \<Rightarrow> int \<Rightarrow> int" where
  "trunc_div a b = (if 0 \<le> a then a div b else - ((- a) div b))"

fun differenceInMinutes :: "jsdate \<Rightarrow> jsdate \<Rightarrow> jsnum" where
  "differenceInMinutes (Date l) (Date r) = Num (of_int (trunc_div (l - r) msPerMinute))"
| "differenceInMinutes _ _ = NaN"

fun num_div :: "jsnum \<Rightarrow> rat \<Rightarrow> jsnum" where
  "num_div NaN c = NaN"
| "num_div (Num x) c = Num (x / c)"

fun num_mult :: "jsnum \<Rightarrow> rat \<Rightarrow> jsnum" where
  "num_mult NaN c = NaN"
| "num_mult (Num x) c = Num (x * c)"

fun Math_max :: "jsnum \<Rightarrow> rat \<Rightarrow> jsnum" where
  "Math_max NaN c = NaN"
| "Math_max (Num x) c = Num (max x c)"

text \<open>
  \<open>format\<close> throws a RangeError for an Invalid Date.  Of its result the model keeps the
  numbers the text is printed from, for the four patterns the components use:
  \<open>"d"\<close>, \<open>"h:mm a"\<close>, \<open>"ha"\<close> and \<open>"EEE"\<close>.
\<close>

datatype error = RangeError

datatype pattern = Fmt_d | Fmt_h_mm_a | Fmt_ha | Fmt_EEE

datatype label =
    DayOfMonth int
  | HourMinute int int bool
  | HourOnly int bool
  | WeekDayName int

definition hour12 :: "int \<Rightarrow> int" where
  "hour12 h = (if h mod 12 = 0 then 12 else h mod 12)"

fun format :: "int \<Rightarrow> jsdate \<Rightarrow> pattern \<Rightarrow> error + label" where
  "format tza InvalidDate p = Inl RangeError"
| "format tza (Date t) Fmt_d = Inr (DayOfMonth (getDate tza t))"
| "format tza (Date t) Fmt_h_mm_a =
     Inr (HourMinute (hour12 (getHours tza t)) (getMinutes tza t) (12 \<le> getHours tza t))"
| "format tza (Date t) Fmt_ha = Inr (HourOnly (hour12 (getHours tza t)) (12 \<le> getHours tza t))"
| "format tza (Date t) Fmt_EEE = Inr (WeekDayName (getDay tza t))"

text \<open>\<open>toISOString\<close> throws a RangeError for an Invalid Date; the key is the time value.\<close>

fun toISOString :: "jsdate \<Rightarrow> error + int" where
  "toISOString InvalidDate = Inl RangeError"
| "toISOString (Date t) = Inr t"

text \<open>
  Rendering a list: the first element whose rendering throws ends the whole rendering.
\<close>

fun traverse :: "('a \<Rightarrow> error + 'b) \<Rightarrow> 'a list \<Rightarrow> error + 'b list" where
  "traverse f [] = Inr []"
| "traverse f (x # xs) =
     (case f x of
        Inl e \<Rightarrow> Inl e
      | Inr y \<Rightarrow> (case traverse f xs of Inl e \<Rightarrow> Inl e | Inr ys \<Rightarrow> Inr (y # ys)))"

section \<open>Calendar events (types/calendar)\<close>


record CalendarEvent =
  ev_id :: string
  ev_title :: string
  ev_type :: string
  ev_start :: jsdate
  ev_end :: jsdate
  ev_location :: "string option"
  ev_courseId :: string


text \<open>
  Strings are lists of 8-bit code units (Latin-1).  \<open>toLowerCase\<close> maps the capital
  letters of that range to their small letters and keeps every other code unit.
\<close>

definition toLowerCase_char :: "char \<Rightarrow> char" where
  "toLowerCase_char c =
     (let n = (of_char c :: nat)
      in if (65 \<le> n \<and> n \<le> 90) \<or> (192 \<le> n \<and> n \<le> 222 \<and> n \<noteq> 215)
         then char_of (n + 32) else c)"

definition toLowerCase :: "string \<Rightarrow> string" where
  "toLowerCase s = map toLowerCase_char s"

fun includes_str :: "string \<Rightarrow> string \<Rightarrow> bool" where
  "includes_str [] search = (search = [])"
| "includes_str (c # cs) search = (prefix search (c # cs) \<or> includes_str cs search)"

definition getEventColor :: "string \<Rightarrow> string" where
  "getEventColor ty =
     (let normalized = toLowerCase ty
      in if includes_str normalized ''class'' \<or> includes_str normalized ''lecture''
            \<or> includes_str normalized ''lab''
         then ''blue''
         else if includes_str normalized ''midterm'' \<or> includes_str normalized ''test''
         then ''orange''
         else if includes_str normalized ''final'' \<or> includes_str normalized ''exam''
         then ''red''
         else if includes_str normalized ''assignment'' \<or> includes_str normalized ''homework''
         then ''purple''
         else if includes_str normalized ''quiz''
         then ''green''
         else ''gray'')"

text \<open>
  The list of parsed events (ParsedEvents) has a categorizer of its own, for the same
  free-text labels.
\<close>

definition getEventTypeColor :: "string \<Rightarrow> string" where
  "getEventTypeColor ty =
     (let lowerType = toLowerCase ty
      in if includes_str lowerType ''lecture'' \<or> includes_str lowerType ''class''
         then ''blue''
         else if includes_str lowerType ''lab''
         then ''purple''
         else if includes_str lowerType ''midterm'' \<or> includes_str lowerType ''test''
         then ''orange''
         else if includes_str lowerType ''final'' \<or> includes_str lowerType ''exam''
         then ''red''
         else if includes_str lowerType ''assignment'' \<or> includes_str lowerType ''project''
         then ''green''
         else ''gray'')"

section \<open>The month grid (CalendarGrid)\<close>

text \<open>
  The components are rendered in an environment with two values they do not receive as
  props: \<open>tza\<close>, the offset of the local time zone, and \<open>now\<close>, the system clock.  A
  rendering that throws is \<open>Inl\<close> of the error.

  A rendered day cell keeps the \<open>day\<close> it stands for, the two flags of its class name
  (\<open>other-month\<close> is set when \<open>isCurrentMonth\<close> is false, \<open>today\<close> when \<open>isCurrentDay\<close> is
  true), the day number, the event pills and the number of the "+n more" line when there
  is one.  An event pill keeps its colour class, its time, its title and the event that a
  click passes to \<open>onEventClick\<close>.
\<close>

record event_pill =
  pill_className :: string
  pill_time :: label
  pill_title :: string
  pill_onClick :: CalendarEvent

record day_cell =
  cell_day :: jsdate
  cell_isCurrentMonth :: bool
  cell_isCurrentDay :: bool
  cell_number :: label
  cell_pills :: "event_pill list"
  cell_more :: "nat option"

definition calendarDays :: "int \<Rightarrow> jsdate \<Rightarrow> jsdate list" where
  "calendarDays tza currentDate =
     (let monthStart = startOfMonth tza currentDate;
          monthEnd = endOfMonth tza currentDate;
          calendarStart = startOfWeek tza 0 monthStart;
          calendarEnd = endOfWeek tza 0 monthEnd
      in eachDayOfInterval tza calendarStart calendarEnd)"

definition getEventsForDay :: "int \<Rightarrow> CalendarEvent list \<Rightarrow> jsdate \<Rightarrow> CalendarEvent list" where
  "getEventsForDay tza events day =
     filter (\<lambda>event. let eventStart = ev_start event in isSameDay tza eventStart day) events"

definition eventPill :: "int \<Rightarrow> CalendarEvent \<Rightarrow> error + event_pill" where
  "eventPill tza event =
     (case format tza (ev_start event) Fmt_h_mm_a of
        Inl e \<Rightarrow> Inl e
      | Inr time \<Rightarrow>
          Inr \<lparr> pill_className = getEventColor (ev_type event),
                pill_time = time,
                pill_title = ev_title event,
                pill_onClick = event \<rparr>)"

definition dayCell ::
  "int \<Rightarrow> int \<Rightarrow> jsdate \<Rightarrow> CalendarEvent list \<Rightarrow> jsdate \<Rightarrow> error + day_cell" where
  "dayCell tza now currentDate events day =
     (let dayEvents = getEventsForDay tza events day;
          isCurrentMonth = isSameMonth tza day currentDate;
          isCurrentDay = isToday tza now day
      in case format tza day Fmt_d of
           Inl e \<Rightarrow> Inl e
         | Inr number \<Rightarrow>
             (case traverse (eventPill tza) (take 3 dayEvents) of
                Inl e \<Rightarrow> Inl e
              | Inr pills \<Rightarrow>
                  Inr \<lparr> cell_day = day,
                        cell_isCurrentMonth = isCurrentMonth,
                        cell_isCurrentDay = isCurrentDay,
                        cell_number = number,
                        cell_pills = pills,
                        cell_more = (if length dayEvents > 3
                                     then Some (length dayEvents - 3) else None) \<rparr>))"

definition CalendarGrid ::
  "int \<Rightarrow> int \<Rightarrow> jsdate \<Rightarrow> CalendarEvent list \<Rightarrow> error + day_cell list" where
  "CalendarGrid tza now currentDate events =
     traverse (dayCell tza now currentDate events) (calendarDays tza currentDate)"

section \<open>The week view (CalendarWeekView)\<close>

text \<open>
  A position has the fields \<open>top\<close> and \<open>height\<close>, in pixels.  A rendered event of the week
  view keeps its colour class, its position, its time, its title, its location when it has
  a non-empty one, and the event that a click passes to \<open>onEventClick\<close>.  A rendered day
  keeps its key, the \<open>day\<close> it stands for, the "today" flag, the name and the number of
  the day, and its events.  The view is the column of hour labels and the days.
\<close>

record event_position =
  top_px :: jsnum
  height_px :: jsnum

record week_event =
  we_className :: string
  we_top :: jsnum
  we_height :: jsnum
  we_time :: label
  we_title :: string
  we_location :: "string option"
  we_onClick :: CalendarEvent

record week_day =
  wd_key :: int
  wd_day :: jsdate
  wd_isCurrentDay :: bool
  wd_name :: label
  wd_number :: label
  wd_events :: "week_event list"

record week_view =
  wv_time_col :: "label list"
  wv_days :: "week_day list"

definition HOUR_HEIGHT :: rat where
  "HOUR_HEIGHT = 60"

definition weekDays :: "int \<Rightarrow> jsdate \<Rightarrow> jsdate list" where
  "weekDays tza currentDate =
     (let weekStart = startOfWeek tza 0 currentDate;
          weekEnd = endOfWeek tza 0 currentDate
      in eachDayOfInterval tza weekStart weekEnd)"

definition hours :: "int list" where
  "hours = map int [0..<24]"

definition getEventPosition :: "int \<Rightarrow> CalendarEvent \<Rightarrow> event_position" where
  "getEventPosition tza event =
     (let dayStart = startOfDay tza (ev_start event);
          minutesFromStart = differenceInMinutes (ev_start event) dayStart;
          duration = differenceInMinutes (ev_end event) (ev_start event)
      in \<lparr> top_px = num_mult (num_div minutesFromStart 60) HOUR_HEIGHT,
            height_px = Math_max (num_mult (num_div duration 60) HOUR_HEIGHT) 30 \<rparr>)"

definition weekEvent :: "int \<Rightarrow> CalendarEvent \<Rightarrow> error + week_event" where
  "weekEvent tza event =
     (let pos = getEventPosition tza event
      in case format tza (ev_start event) Fmt_h_mm_a of
           Inl e \<Rightarrow> Inl e
         | Inr time \<Rightarrow>
             Inr \<lparr> we_className = getEventColor (ev_type event),
                   we_top = top_px pos,
                   we_height = height_px pos,
                   we_time = time,
                   we_title = ev_title event,
                   we_location = (case ev_location event of
                                    None \<Rightarrow> None
                                  | Some l \<Rightarrow> if l = [] then None else Some l),
                   we_onClick = event \<rparr>)"

definition weekDay ::
  "int \<Rightarrow> int \<Rightarrow> CalendarEvent list \<Rightarrow> jsdate \<Rightarrow> error + week_day" where
  "weekDay tza now events day =
     (let dayEvents = getEventsForDay tza events day;
          isCurrentDay = isToday tza now day
      in case toISOString day of
           Inl e \<Rightarrow> Inl e
         | Inr key \<Rightarrow>
        (case format tza day Fmt_EEE of
           Inl e \<Rightarrow> Inl e
         | Inr name \<Rightarrow>
        (case format tza day Fmt_d of
           Inl e \<Rightarrow> Inl e
         | Inr number \<Rightarrow>
        (case traverse (weekEvent tza) dayEvents of
           Inl e \<Rightarrow> Inl e
         | Inr evs \<Rightarrow>
             Inr \<lparr> wd_key = key,
                   wd_day = day,
                   wd_isCurrentDay = isCurrentDay,
                   wd_name = name,
                   wd_number = number,
                   wd_events = evs \<rparr>))))"

definition CalendarWeekView ::
  "int \<Rightarrow> int \<Rightarrow> jsdate \<Rightarrow> CalendarEvent list \<Rightarrow> error + week_view" where
  "CalendarWeekView tza now currentDate events =
     (let days = weekDays tza currentDate
      in case traverse (\<lambda>hour. format tza (addMinutes (startOfDay tza currentDate) (hour * 60)) Fmt_ha)
                hours of
           Inl e \<Rightarrow> Inl e
         | Inr col \<Rightarrow>
             (case traverse (weekDay tza now events) days of
                Inl e \<Rightarrow> Inl e
              | Inr ds \<Rightarrow> Inr \<lparr> wv_time_col = col, wv_days = ds \<rparr>))"

section \<open>Choosing the view (CalendarView)\<close>

text \<open>
  The content of the calendar for a course with events: the month grid when the view is
  \<open>"month"\<close>, the week view otherwise.
\<close>

datatype CalendarView = Month | Week

datatype calendar_content = MonthContent "day_cell list" | WeekContent week_view

definition calendarContent ::
  "int \<Rightarrow> int \<Rightarrow> CalendarView \<Rightarrow> jsdate \<Rightarrow> CalendarEvent list \<Rightarrow> error + calendar_content" where
  "calendarContent tza now view currentDate events =
     (if view = Month
      then map_sum id MonthContent (CalendarGrid tza now currentDate events)
      else map_sum id WeekContent (CalendarWeekView tza now currentDate events))"

section \<open>Auxiliary definitions\<close>

text \<open>
  \<open>monthEndDay m l\<close> is the day within the year that follows the last day of month \<open>m\<close>,
  in a year with leap flag \<open>l\<close>.
\<close>

definition monthEndDay :: "int \<Rightarrow> int \<Rightarrow> int" where
  "monthEndDay m l = (if m = 11 then 365 + l else monthStartDay (m + 1) l)"

text \<open>
  Day numbers, as \<open>Day\<close> counts them in local time: \<open>midnight tza d\<close> is the \<open>Date\<close> at the
  local start of day \<open>d\<close> and \<open>lastMs tza d\<close> the \<open>Date\<close> at its last millisecond;
  \<open>weekStartDay d\<close> and \<open>weekEndDay d\<close> are the Sunday and the Saturday of the week of day
  \<open>d\<close>; \<open>monthFirstDay d\<close> and \<open>monthLastDay d\<close> are the first and the last day of its
  month.
\<close>

definition midnight :: "int \<Rightarrow> int \<Rightarrow> jsdate" where
  "midnight tza d = Date (UTC tza (MakeDate d 0))"

definition lastMs :: "int \<Rightarrow> int \<Rightarrow> jsdate" where
  "lastMs tza d = Date (UTC tza (MakeDate d (msPerDay - 1)))"

definition weekStartDay :: "int \<Rightarrow> int" where
  "weekStartDay d = d - (d + 4) mod 7"

definition weekEndDay :: "int \<Rightarrow> int" where
  "weekEndDay d = d + 6 - (d + 4) mod 7"

definition monthFirstDay :: "int \<Rightarrow> int" where
  "monthFirstDay d = MakeDay (YearFromDay d) (MonthFromDay d) 1"

definition monthLastDay :: "int \<Rightarrow> int" where
  "monthLastDay d = MakeDay (YearFromDay d) (MonthFromDay d + 1) 0"

text \<open>
  The range of time values: \<open>maxTime\<close> is the largest time value of a valid \<open>Date\<close>.  A
  time is \<open>farFromLimits\<close> when it is at least 45 days inside the range and the offset of
  the time zone is at most a day: no date that the views compute from it leaves the range.
  \<open>localDay\<close> is the number of the local calendar day of a valid \<open>Date\<close>.
\<close>

definition maxTime :: int where
  "maxTime = 8640000000000000"

definition farFromLimits :: "int \<Rightarrow> int \<Rightarrow> bool" where
  "farFromLimits tza t =
     (- msPerDay \<le> tza \<and> tza \<le> msPerDay \<and>
      - maxTime + 45 * msPerDay \<le> t \<and> t \<le> maxTime - 45 * msPerDay)"


section \<open>The colour rules as an ordered rule list\<close>

text \<open>
  The specification describes \<open>categorize\<close> as case-insensitive substring matching against
  an ordered list of keyword rules, where the first matching rule wins and no match falls
  back to "other".  \<open>categorize_rules\<close> is that description, with the keywords and the
  results of the code; it is compared with \<open>getEventColor\<close> below.
\<close>

definition colorRules :: "(string list \<times> string) list" where
  "colorRules =
     [([''class'', ''lecture'', ''lab''], ''blue''),
      ([''midterm'', ''test''], ''orange''),
      ([''final'', ''exam''], ''red''),
      ([''assignment'', ''homework''], ''purple''),
      ([''quiz''], ''green'')]"

definition categorize_rules :: "string \<Rightarrow> string" where
  "categorize_rules ty =
     (case find (\<lambda>rule. list_ex (\<lambda>k. sublist k (toLowerCase ty)) (fst rule)) colorRules of
        Some rule \<Rightarrow> snd rule
      | None \<Rightarrow> ''gray'')"

section \<open>Sample events\<close>

text \<open>
  The events of the scenarios: the midterm of 2025-03-10 from 14:00 to 15:30 UTC, and
  one-hour lectures at a given start.
\<close>

definition midterm1 :: CalendarEvent where
  "midterm1 =
     \<lparr> ev_id = ''e1'', ev_title = ''Midterm 1'', ev_type = ''Midterm'',
       ev_start = Date 1741615200000, ev_end = Date 1741620600000,
       ev_location = None, ev_courseId = ''c1'' \<rparr>"

definition lectureAt :: "string \<Rightarrow> int \<Rightarrow> CalendarEvent" where
  "lectureAt i s =
     \<lparr> ev_id = i, ev_title = ''Lecture'', ev_type = ''Lecture'',
       ev_start = Date s, ev_end = Date (s + 3600000),
       ev_location = None, ev_courseId = ''c1'' \<rparr>"

definition fiveLectures :: "CalendarEvent list" where
  "fiveLectures =
     [lectureAt ''l1'' 1741597200000, lectureAt ''l2'' 1741600800000,
      lectureAt ''l3'' 1741604400000, lectureAt ''l4'' 1741611600000,
      lectureAt ''l5'' 1741618800000]"



text \<open>The midterm with an unparseable start, and with an unparseable end.\<close>

definition badStart :: CalendarEvent where
  "badStart = midterm1 \<lparr> ev_start := InvalidDate \<rparr>"

definition badEnd :: CalendarEvent where
  "badEnd = midterm1 \<lparr> ev_end := InvalidDate \<rparr>"

text \<open>Clearing the "today" flags of a rendered view.\<close>

definition clearToday :: "calendar_content \<Rightarrow> calendar_content" where
  "clearToday content =
     (case content of
        MonthContent cells \<Rightarrow>
          MonthContent (map (\<lambda>c. c \<lparr> cell_isCurrentDay := False \<rparr>) cells)
      | WeekContent view \<Rightarrow>
          WeekContent (view \<lparr> wv_days :=
            map (\<lambda>d. d \<lparr> wd_isCurrentDay := False \<rparr>) (wv_days view) \<rparr>))"

subsection \<open>The days of a month\<close>

lemma month_cases:
  "0 \<le> (m::int) \<Longrightarrow> m < 12 \<Longrightarrow>
   m = 0 \<or> m = 1 \<or> m = 2 \<or> m = 3 \<or> m = 4 \<or> m = 5 \<or> m = 6 \<or> m = 7 \<or> m = 8 \<or> m = 9 \<or> m = 10 \<or> m = 11"
  by arith

lemma MonthFromDay_iff:
  assumes "0 \<le> m" "m < 12"
  shows "MonthFromDay d = m \<longleftrightarrow>
         monthStartDay m (InLeapYear (YearFromDay d)) \<le> DayWithinYear d \<and>
         DayWithinYear d < monthEndDay m (InLeapYear (YearFromDay d))"
proof -
  have w: "0 \<le> DayWithinYear d" "DayWithinYear d < 365 + InLeapYear (YearFromDay d)"
    using DayWithinYear_bounds [of d] by simp_all
  have l: "InLeapYear (YearFromDay d) = 0 \<or> InLeapYear (YearFromDay d) = 1"
    by (rule InLeapYear_range)
  from month_cases [OF assms] show ?thesis
  proof (elim disjE)
    assume "m = 0" with w l show ?thesis
      by (auto simp: MonthFromDay_def monthStartDay_def monthEndDay_def Let_def)
  next
    assume "m = 1" with w l show ?thesis
      by (auto simp: MonthFromDay_def monthStartDay_def monthEndDay_def Let_def)
  next
    assume "m = 2" with w l show ?thesis
      by (auto simp: MonthFromDay_def monthStartDay_def monthEndDay_def Let_def)
  next
    assume "m = 3" with w l show ?thesis
      by (auto simp: MonthFromDay_def monthStartDay_def monthEndDay_def Let_def)
  next
    assume "m = 4" with w l show ?thesis
      by (auto simp: MonthFromDay_def monthStartDay_def monthEndDay_def Let_def)
  next
    assume "m = 5" with w l show ?thesis
      by (auto simp: MonthFromDay_def monthStartDay_def monthEndDay_def Let_def)
  next
    assume "m = 6" with w l show ?thesis
      by (auto simp: MonthFromDay_def monthStartDay_def monthEndDay_def Let_def)
  next
    assume "m = 7" with w l show ?thesis
      by (auto simp: MonthFromDay_def monthStartDay_def monthEndDay_def Let_def)
  next
    assume "m = 8" with w l show ?thesis
      by (auto simp: MonthFromDay_def monthStartDay_def monthEndDay_def Let_def)
  next
    assume "m = 9" with w l show ?thesis
      by (auto simp: MonthFromDay_def monthStartDay_def monthEndDay_def Let_def)
  next
    assume "m = 10" with w l show ?thesis
      by (auto simp: MonthFromDay_def monthStartDay_def monthEndDay_def Let_def)
  next
    assume "m = 11" with w l show ?thesis
      by (auto simp: MonthFromDay_def monthStartDay_def monthEndDay_def Let_def)
  qed
qed

lemma month_length:
  assumes "0 \<le> m" "m < 12" "l = 0 \<or> l = 1"
  shows "28 \<le> monthEndDay m l - monthStartDay m l \<and> monthEndDay m l - monthStartDay m l \<le> 31"
  using month_cases [OF assms(1,2)] assms(3)
  by (auto simp: monthStartDay_def monthEndDay_def)

lemma month_in_year:
  assumes "0 \<le> m" "m < 12" "l = 0 \<or> l = 1"
  shows "0 \<le> monthStartDay m l \<and> monthEndDay m l \<le> 365 + l"
  using month_cases [OF assms(1,2)] assms(3)
  by (auto simp: monthStartDay_def monthEndDay_def)

lemma MakeDay_last:
  assumes "0 \<le> m" "m < 12"
  shows "MakeDay y (m + 1) 0 = DayFromYear y + monthEndDay m (InLeapYear y) - 1"
proof (cases "m = 11")
  case True
  then show ?thesis
    by (simp add: MakeDay_def monthEndDay_def monthStartDay_def DayFromYear_step DaysInYear_def)
next
  case False
  with assms have "0 \<le> m + 1" "m + 1 < 12" by simp_all
  then show ?thesis using False by (simp add: MakeDay_in_year monthEndDay_def)
qed

lemma month_interval:
  assumes "0 \<le> m" "m < 12"
  shows "(YearFromDay d = y \<and> MonthFromDay d = m) \<longleftrightarrow>
         (MakeDay y m 1 \<le> d \<and> d \<le> MakeDay y (m + 1) 0)"
proof
  assume a: "YearFromDay d = y \<and> MonthFromDay d = m"
  then have y: "YearFromDay d = y" and m: "MonthFromDay d = m" by simp_all
  from m have "monthStartDay m (InLeapYear (YearFromDay d)) \<le> DayWithinYear d \<and>
             DayWithinYear d < monthEndDay m (InLeapYear (YearFromDay d))"
    by (simp only: MonthFromDay_iff [OF assms, of d])
  with y show "MakeDay y m 1 \<le> d \<and> d \<le> MakeDay y (m + 1) 0"
    by (simp add: MakeDay_in_year [OF assms] MakeDay_last [OF assms] DayWithinYear_def)
next
  assume b: "MakeDay y m 1 \<le> d \<and> d \<le> MakeDay y (m + 1) 0"
  let ?l = "InLeapYear y"
  have r: "0 \<le> monthStartDay m ?l \<and> monthEndDay m ?l \<le> 365 + ?l"
    by (rule month_in_year [OF assms InLeapYear_range])
  from b have c: "DayFromYear y + monthStartDay m ?l \<le> d" "d < DayFromYear y + monthEndDay m ?l"
    by (simp_all add: MakeDay_in_year [OF assms] MakeDay_last [OF assms])
  have y: "YearFromDay d = y"
  proof (rule YearFromDay_unique)
    show "DayFromYear y \<le> d" using c r by linarith
    show "d < DayFromYear (y + 1)" using c r by (simp add: DayFromYear_step DaysInYear_def)
  qed
  moreover have "MonthFromDay d = m"
    using c by (simp add: MonthFromDay_iff [OF assms] y DayWithinYear_def)
  ultimately show "YearFromDay d = y \<and> MonthFromDay d = m" by simp
qed

lemma month_span:
  assumes "0 \<le> m" "m < 12"
  shows "27 \<le> MakeDay y (m + 1) 0 - MakeDay y m 1 \<and> MakeDay y (m + 1) 0 - MakeDay y m 1 \<le> 30"
  using month_length [OF assms InLeapYear_range, of y]
  by (simp add: MakeDay_in_year [OF assms] MakeDay_last [OF assms])

section \<open>The days of the month grid and of the week view\<close>

lemma Day_local_midnight: "Day (LocalTime tza (UTC tza (MakeDate d 0))) = d"
  using msPerDay_pos by (simp add: LocalTime_UTC Day_MakeDate)

lemma Day_local_lastMs: "Day (LocalTime tza (UTC tza (MakeDate d (msPerDay - 1)))) = d"
  using msPerDay_pos by (simp add: LocalTime_UTC Day_MakeDate)


lemma setHours_last: "setHours tza t 23 59 59 999 = UTC tza (MakeDate (Day (LocalTime tza t)) (msPerDay - 1))"
  by (simp add: setHours_def MakeTime_def msPerDay_def)

lemma Day_setDate: "Day (LocalTime tza (setDate tza t dt)) = MakeDay (getFullYear tza t) (getMonth tza t) dt"
  using TimeWithinDay_range [of "LocalTime tza t"]
  by (simp add: setDate_def Let_def LocalTime_UTC Day_MakeDate getFullYear_def getMonth_def)

lemma Day_setFullYear: "Day (LocalTime tza (setFullYear tza t y m dt)) = MakeDay y m dt"
  using TimeWithinDay_range [of "LocalTime tza t"]
  by (simp add: setFullYear_def LocalTime_UTC Day_MakeDate)

lemma startOfMonth_eq:
  "startOfMonth tza (Date t) = midnight tza (MakeDay (getFullYear tza t) (getMonth tza t) 1)"
  by (simp add: midnight_def setHours_midnight Day_setDate)

lemma endOfMonth_eq:
  "endOfMonth tza (Date t) = lastMs tza (MakeDay (getFullYear tza t) (getMonth tza t + 1) 0)"
  by (simp add: lastMs_def Let_def setHours_last Day_setFullYear)

lemma startOfWeek_eq:
  "startOfWeek tza 0 (Date t) = midnight tza (weekStartDay (Day (LocalTime tza t)))"
proof -
  have w: "\<not> getDay tza t < 0" by (simp add: getDay_def WeekDay_def)
  have d: "Day (LocalTime tza (setDate tza t (getDate tza t - getDay tza t))) =
        Day (LocalTime tza t) - getDay tza t"
    using Day_setDate_shift [of tza t "- getDay tza t"] by simp
  have "startOfWeek tza 0 (Date t) =
        Date (setHours tza (setDate tza t (getDate tza t - getDay tza t)) 0 0 0 0)"
    using w by (simp add: Let_def)
  also have "\<dots> = midnight tza (Day (LocalTime tza t) - getDay tza t)"
    by (simp add: midnight_def setHours_midnight d)
  finally have e: "startOfWeek tza 0 (Date t) =
      midnight tza (Day (LocalTime tza t) - getDay tza t)" .
  have "Day (LocalTime tza t) - getDay tza t = weekStartDay (Day (LocalTime tza t))"
    by (simp add: weekStartDay_def getDay_def WeekDay_def)
  with e show ?thesis by (simp only:)
qed

lemma endOfWeek_eq:
  "endOfWeek tza 0 (Date t) = lastMs tza (weekEndDay (Day (LocalTime tza t)))"
proof -
  have w: "\<not> getDay tza t < 0" by (simp add: getDay_def WeekDay_def)
  have d: "Day (LocalTime tza (setDate tza t (getDate tza t + (6 - getDay tza t)))) =
        Day (LocalTime tza t) + (6 - getDay tza t)"
    by (rule Day_setDate_shift)
  have "endOfWeek tza 0 (Date t) =
        Date (setHours tza (setDate tza t (getDate tza t + (6 - getDay tza t))) 23 59 59 999)"
    using w by (simp add: Let_def)
  also have "\<dots> = lastMs tza (Day (LocalTime tza t) + (6 - getDay tza t))"
    by (simp add: lastMs_def setHours_last d)
  finally have e: "endOfWeek tza 0 (Date t) =
      lastMs tza (Day (LocalTime tza t) + (6 - getDay tza t))" .
  have "Day (LocalTime tza t) + (6 - getDay tza t) = weekEndDay (Day (LocalTime tza t))"
    by (simp add: weekEndDay_def getDay_def WeekDay_def)
  with e show ?thesis by (simp only:)
qed

lemma eachDayLoop_upto:
  "eachDayLoop tza (UTC tza (MakeDate a 0)) (UTC tza (MakeDate b (msPerDay - 1))) =
     map (midnight tza) [a..b]"
proof (induction "nat (b + 1 - a)" arbitrary: a)
  case 0
  then have "b < a" by simp
  then have "b + 1 \<le> a" by simp
  then have "(b + 1) * msPerDay \<le> a * msPerDay"
    using msPerDay_pos by (simp add: mult_right_mono)
  then have "\<not> UTC tza (MakeDate a 0) \<le> UTC tza (MakeDate b (msPerDay - 1))"
    unfolding UTC_def MakeDate_def by (simp add: algebra_simps)
  with \<open>b < a\<close> show ?case by (subst eachDayLoop.simps) simp
next
  case (Suc n)
  then have ab: "a \<le> b" by simp
  then have "a * msPerDay \<le> b * msPerDay"
    using msPerDay_pos by (simp add: mult_right_mono)
  then have le: "UTC tza (MakeDate a 0) \<le> UTC tza (MakeDate b (msPerDay - 1))"
    unfolding UTC_def MakeDate_def using msPerDay_pos by linarith
  have nx: "setHours tza (setDate tza (UTC tza (MakeDate a 0))
              (getDate tza (UTC tza (MakeDate a 0)) + 1)) 0 0 0 0 = UTC tza (MakeDate (a + 1) 0)"
    by (simp add: next_midnight Day_local_midnight)
  from Suc have "n = nat (b + 1 - (a + 1))" by simp
  from Suc.hyps(1) [OF this]
  have ih: "eachDayLoop tza (UTC tza (MakeDate (a + 1) 0)) (UTC tza (MakeDate b (msPerDay - 1))) =
     map (midnight tza) [a + 1..b]" .
  have "[a..b] = a # [a + 1..b]" using ab by (simp add: upto_rec1)
  with le nx ih show ?case
    by (subst eachDayLoop.simps) (simp add: midnight_def)
qed

lemma eachDayOfInterval_days:
  assumes "a \<le> b"
  shows "eachDayOfInterval tza (midnight tza a) (lastMs tza b) = map (midnight tza) [a..b]"
proof -
  define A where "A = UTC tza (MakeDate a 0)"
  define B where "B = UTC tza (MakeDate b (msPerDay - 1))"
  from assms have "a * msPerDay \<le> b * msPerDay"
    using msPerDay_pos by (simp add: mult_right_mono)
  then have le: "\<not> A > B"
    unfolding A_def B_def UTC_def MakeDate_def using msPerDay_pos by linarith
  have h: "setHours tza A 0 0 0 0 = A"
    unfolding A_def by (simp add: setHours_midnight Day_local_midnight)
  have "eachDayOfInterval tza (Date A) (Date B) = eachDayLoop tza A B"
    using le h by (simp add: Let_def)
  also have "\<dots> = map (midnight tza) [a..b]"
    unfolding A_def B_def by (rule eachDayLoop_upto)
  finally show ?thesis
    by (simp only: midnight_def lastMs_def A_def B_def)
qed

lemma weekStart_le: "weekStartDay d \<le> d"
  by (simp add: weekStartDay_def)

lemma weekEnd_ge: "d \<le> weekEndDay d"
proof -
  have "(d + 4) mod 7 < 7" by simp
  then show ?thesis unfolding weekEndDay_def by linarith
qed

lemma weekDays_eq:
  "weekDays tza (Date t) =
     map (midnight tza) [weekStartDay (Day (LocalTime tza t))..weekEndDay (Day (LocalTime tza t))]"
proof -
  have "weekStartDay (Day (LocalTime tza t)) \<le> weekEndDay (Day (LocalTime tza t))"
    using weekStart_le weekEnd_ge by (rule order_trans)
  then show ?thesis
    unfolding weekDays_def Let_def startOfWeek_eq endOfWeek_eq
    by (rule eachDayOfInterval_days)
qed

lemma getFullYear_Day: "getFullYear tza t = YearFromDay (Day (LocalTime tza t))"
  by (simp add: getFullYear_def YearFromTime_def)

lemma getMonth_Day: "getMonth tza t = MonthFromDay (Day (LocalTime tza t))"
  by (simp add: getMonth_def MonthFromTime_def)

lemma month_contains: "monthFirstDay d \<le> d \<and> d \<le> monthLastDay d"
  using month_interval [of "MonthFromDay d" d "YearFromDay d"] MonthFromDay_range [of d]
  by (simp add: monthFirstDay_def monthLastDay_def)

lemma calendarDays_eq:
  "calendarDays tza (Date t) =
     map (midnight tza)
       [weekStartDay (monthFirstDay (Day (LocalTime tza t)))..
        weekEndDay (monthLastDay (Day (LocalTime tza t)))]"
proof -
  let ?d = "Day (LocalTime tza t)"
  have "weekStartDay (monthFirstDay ?d) \<le> monthFirstDay ?d" by (rule weekStart_le)
  also have "\<dots> \<le> monthLastDay ?d" using month_contains [of ?d] by simp
  also have "\<dots> \<le> weekEndDay (monthLastDay ?d)" by (rule weekEnd_ge)
  finally have le: "weekStartDay (monthFirstDay ?d) \<le> weekEndDay (monthLastDay ?d)" .
  have s: "startOfWeek tza 0 (startOfMonth tza (Date t)) = midnight tza (weekStartDay (monthFirstDay ?d))"
    by (simp only: startOfMonth_eq midnight_def [of tza "MakeDay _ _ _"] startOfWeek_eq
        Day_local_midnight monthFirstDay_def getFullYear_Day getMonth_Day)
  have e: "endOfWeek tza 0 (endOfMonth tza (Date t)) = lastMs tza (weekEndDay (monthLastDay ?d))"
    by (simp only: endOfMonth_eq lastMs_def [of tza "MakeDay _ _ _"] endOfWeek_eq
        Day_local_lastMs monthLastDay_def getFullYear_Day getMonth_Day)
  show ?thesis
    unfolding calendarDays_def Let_def s e by (rule eachDayOfInterval_days [OF le])
qed

subsection \<open>The number of days\<close>

lemma weekStart_mod: "(weekStartDay d + 4) mod 7 = 0"
  unfolding weekStartDay_def by presburger


lemma week_span: "weekEndDay d = weekStartDay d + 6"
  by (simp add: weekStartDay_def weekEndDay_def)


lemma month_days_span:
  "27 \<le> monthLastDay d - monthFirstDay d \<and> monthLastDay d - monthFirstDay d \<le> 30"
  using month_span [of "MonthFromDay d" "YearFromDay d"] MonthFromDay_range [of d]
  by (simp add: monthFirstDay_def monthLastDay_def)



lemma upto_as_upt: "[a..b] = map (\<lambda>i. a + int i) [0..<nat (b + 1 - a)]"
proof (rule nth_equalityI)
  show "length [a..b] = length (map (\<lambda>i. a + int i) [0..<nat (b + 1 - a)])" by simp
next
  fix i
  assume "i < length [a..b]"
  then have i: "i < nat (b + 1 - a)" by simp
  then have "[0..<nat (b + 1 - a)] ! i = i" by simp
  moreover from i have "a + int i \<le> b" by linarith
  ultimately show "[a..b] ! i = map (\<lambda>i. a + int i) [0..<nat (b + 1 - a)] ! i"
    using i by simp
qed

lemma midnight_shift: "midnight tza (a + i) = Date (UTC tza (MakeDate a 0) + i * msPerDay)"
  by (simp add: midnight_def UTC_def MakeDate_def algebra_simps)

lemma days_consecutive:
  "map (midnight tza) [a..b] =
     map (\<lambda>i. Date (UTC tza (MakeDate a 0) + int i * msPerDay)) [0..<length [a..b]]"
proof -
  have "length [a..b] = nat (b + 1 - a)" by simp
  moreover have "map (midnight tza) [a..b] =
     map (\<lambda>i. Date (UTC tza (MakeDate a 0) + int i * msPerDay)) [0..<nat (b + 1 - a)]"
    by (subst upto_as_upt) (simp add: midnight_shift o_def)
  ultimately show ?thesis by (simp only:)
qed

section \<open>Day buckets and rendered cells\<close>

lemma traverse_Inr:
  "(\<And>x. x \<in> set xs \<Longrightarrow> f x = Inr (g x)) \<Longrightarrow> traverse f xs = Inr (map g xs)"
  by (induction xs) simp_all

lemma traverse_Inl:
  "f x = Inl e \<Longrightarrow> x \<in> set xs \<Longrightarrow> \<exists>e'. traverse f xs = Inl e'"
  by (induction xs) (auto split: sum.splits)

lemma midnight_inj: "(midnight tza d = midnight tza d') = (d = d')"
  using msPerDay_pos by (simp add: midnight_def UTC_def MakeDate_def)

lemma isSameDay_valid:
  "isSameDay tza (Date u) (Date v) = (Day (LocalTime tza u) = Day (LocalTime tza v))"
proof -
  have "isSameDay tza (Date u) (Date v) =
        (midnight tza (Day (LocalTime tza u)) = midnight tza (Day (LocalTime tza v)))"
    by (simp add: midnight_def setHours_midnight)
  then show ?thesis by (simp only: midnight_inj)
qed

lemma isSameDay_invalid [simp]:
  "isSameDay tza InvalidDate x = False" "isSameDay tza x InvalidDate = False"
  by (cases x; simp)+

lemma isSameDay_midnight:
  "isSameDay tza (Date u) (midnight tza d) = (Day (LocalTime tza u) = d)"
  unfolding midnight_def isSameDay_valid Day_local_midnight ..

lemma Day_fields:
  "(a = b) =
   (YearFromDay a = YearFromDay b \<and> MonthFromDay a = MonthFromDay b \<and> DateFromDay a = DateFromDay b)"
proof
  assume "YearFromDay a = YearFromDay b \<and> MonthFromDay a = MonthFromDay b \<and>
          DateFromDay a = DateFromDay b"
  then have "MakeDay (YearFromDay a) (MonthFromDay a) (DateFromDay a) =
             MakeDay (YearFromDay b) (MonthFromDay b) (DateFromDay b)" by simp
  then show "a = b" using MakeDay_fields [of a 0] MakeDay_fields [of b 0] by simp
qed simp

lemma isSameDay_fields:
  "isSameDay tza (Date u) (Date v) =
     (getFullYear tza u = getFullYear tza v \<and> getMonth tza u = getMonth tza v \<and>
      getDate tza u = getDate tza v)"
  unfolding isSameDay_valid
  by (subst Day_fields)
     (simp add: getFullYear_def getMonth_def getDate_def YearFromTime_def MonthFromTime_def
        DateFromTime_def)


lemma getEventsForDay_valid_start:
  "e \<in> set (getEventsForDay tza events day) \<Longrightarrow> \<exists>s. ev_start e = Date s"
  by (cases "ev_start e") (auto simp: getEventsForDay_def Let_def)

lemma eventPill_valid:
  "ev_start e = Date s \<Longrightarrow>
   eventPill tza e = Inr (projr (eventPill tza e)) \<and> pill_onClick (projr (eventPill tza e)) = e
   \<and> pill_className (projr (eventPill tza e)) = getEventColor (ev_type e)"
  by (simp add: eventPill_def)

lemma dayCell_valid:
  "\<exists>c. dayCell tza now currentDate events (Date v) = Inr c \<and>
       cell_day c = Date v \<and>
       cell_isCurrentMonth c = isSameMonth tza (Date v) currentDate \<and>
       cell_isCurrentDay c = isToday tza now (Date v) \<and>
       cell_number c = DayOfMonth (getDate tza v) \<and>
       map pill_onClick (cell_pills c) = take 3 (getEventsForDay tza events (Date v)) \<and>
       cell_more c = (if length (getEventsForDay tza events (Date v)) > 3
                      then Some (length (getEventsForDay tza events (Date v)) - 3) else None)"
proof -
  let ?es = "getEventsForDay tza events (Date v)"
  let ?g = "\<lambda>e. projr (eventPill tza e)"
  have p: "eventPill tza e = Inr (?g e) \<and> pill_onClick (?g e) = e" if "e \<in> set (take 3 ?es)" for e
  proof -
    from that have "e \<in> set ?es" by (rule in_set_takeD)
    then obtain s where "ev_start e = Date s"
      using getEventsForDay_valid_start by blast
    then show ?thesis using eventPill_valid by blast
  qed
  have t: "traverse (eventPill tza) (take 3 ?es) = Inr (map ?g (take 3 ?es))"
  proof (rule traverse_Inr)
    fix e
    assume "e \<in> set (take 3 ?es)"
    from p [OF this] show "eventPill tza e = Inr (?g e)" ..
  qed
  have m: "map pill_onClick (map ?g (take 3 ?es)) = take 3 ?es"
    unfolding map_map o_def
  proof (rule map_idI)
    fix e
    assume "e \<in> set (take 3 ?es)"
    from p [OF this] show "pill_onClick (?g e) = e" ..
  qed
  have d: "dayCell tza now currentDate events (Date v) =
     Inr \<lparr> cell_day = Date v,
           cell_isCurrentMonth = isSameMonth tza (Date v) currentDate,
           cell_isCurrentDay = isToday tza now (Date v),
           cell_number = DayOfMonth (getDate tza v),
           cell_pills = map ?g (take 3 ?es),
           cell_more = (if length ?es > 3 then Some (length ?es - 3) else None) \<rparr>"
    unfolding dayCell_def Let_def format.simps t by (simp only: sum.case)
  show ?thesis unfolding d using m by simp
qed

subsection \<open>The rendered month grid\<close>

lemma dayCell_projr:
  "dayCell tza now currentDate events (Date v) =
     Inr (projr (dayCell tza now currentDate events (Date v)))"
  using dayCell_valid [of tza now currentDate events v] by auto

lemma calendarDays_valid: "day \<in> set (calendarDays tza (Date t)) \<Longrightarrow> \<exists>v. day = Date v"
  by (auto simp: calendarDays_eq midnight_def)

lemma CalendarGrid_valid:
  "CalendarGrid tza now (Date t) events =
     Inr (map (\<lambda>day. projr (dayCell tza now (Date t) events day)) (calendarDays tza (Date t)))"
  unfolding CalendarGrid_def
proof (rule traverse_Inr)
  fix day
  assume "day \<in> set (calendarDays tza (Date t))"
  then obtain v where v: "day = Date v" using calendarDays_valid by blast
  show "dayCell tza now (Date t) events day = Inr (projr (dayCell tza now (Date t) events day))"
    unfolding v by (rule dayCell_projr)
qed

lemma cell_day_projr:
  "cell_day (projr (dayCell tza now currentDate events (Date v))) = Date v"
  using dayCell_valid [of tza now currentDate events v] by auto

lemma cell_days_grid:
  "map cell_day (map (\<lambda>day. projr (dayCell tza now (Date t) events day)) (calendarDays tza (Date t)))
     = calendarDays tza (Date t)"
  unfolding map_map o_def
proof (rule map_idI)
  fix day
  assume "day \<in> set (calendarDays tza (Date t))"
  then obtain v where v: "day = Date v" using calendarDays_valid by blast
  show "cell_day (projr (dayCell tza now (Date t) events day)) = day"
    unfolding v by (rule cell_day_projr)
qed



subsection \<open>The cells of the current month\<close>





lemma calendarDays_consecutive:
  "\<exists>c0. startOfWeek tza 0 (startOfMonth tza (Date t)) = Date c0 \<and>
     calendarDays tza (Date t) =
       map (\<lambda>i. Date (c0 + int i * msPerDay)) [0..<length (calendarDays tza (Date t))]"
proof -
  let ?cs = "weekStartDay (monthFirstDay (Day (LocalTime tza t)))"
  let ?ce = "weekEndDay (monthLastDay (Day (LocalTime tza t)))"
  have "length (calendarDays tza (Date t)) = length [?cs..?ce]"
    by (simp only: calendarDays_eq length_map)
  then have "calendarDays tza (Date t) =
     map (\<lambda>i. Date (UTC tza (MakeDate ?cs 0) + int i * msPerDay))
       [0..<length (calendarDays tza (Date t))]"
    using days_consecutive [of tza ?cs ?ce] by (simp only: calendarDays_eq)
  moreover have "startOfWeek tza 0 (startOfMonth tza (Date t)) = Date (UTC tza (MakeDate ?cs 0))"
    by (simp only: startOfMonth_eq midnight_def [of tza "MakeDay _ _ _"] startOfWeek_eq
        Day_local_midnight monthFirstDay_def getFullYear_Day getMonth_Day midnight_def)
  ultimately show ?thesis by blast
qed

lemma cell_contents_projr:
  "map pill_onClick (cell_pills (projr (dayCell tza now currentDate events (Date v)))) =
     take 3 (getEventsForDay tza events (Date v)) \<and>
   cell_more (projr (dayCell tza now currentDate events (Date v))) =
     (if length (getEventsForDay tza events (Date v)) > 3
      then Some (length (getEventsForDay tza events (Date v)) - 3) else None)"
  using dayCell_valid [of tza now currentDate events v] by auto

subsection \<open>Events and the day they are placed on\<close>

lemma getEventsForDay_iff:
  "e \<in> set (getEventsForDay tza events (Date v)) \<longleftrightarrow>
     e \<in> set events \<and>
     (\<exists>u. ev_start e = Date u \<and> getFullYear tza u = getFullYear tza v \<and>
          getMonth tza u = getMonth tza v \<and> getDate tza u = getDate tza v)"
proof (cases "ev_start e")
  case InvalidDate
  then show ?thesis by (simp add: getEventsForDay_def Let_def)
next
  case (Date u)
  then show ?thesis
    by (simp add: getEventsForDay_def Let_def isSameDay_fields del: isSameDay.simps)
qed

lemma getEventsForDay_midnight:
  "e \<in> set (getEventsForDay tza events (midnight tza d)) \<longleftrightarrow>
     e \<in> set events \<and> (\<exists>u. ev_start e = Date u \<and> Day (LocalTime tza u) = d)"
proof (cases "ev_start e")
  case InvalidDate
  then show ?thesis by (simp add: getEventsForDay_def Let_def)
next
  case (Date u)
  then show ?thesis
    by (simp add: getEventsForDay_def Let_def isSameDay_midnight del: isSameDay.simps)
qed

lemma calendarDays_nth:
  "i < length (calendarDays tza (Date t)) \<Longrightarrow>
   calendarDays tza (Date t) ! i =
     midnight tza (weekStartDay (monthFirstDay (Day (LocalTime tza t))) + int i)"
  by (simp add: calendarDays_eq)

lemma buckets_disjoint:
  assumes "i < j" "j < length (calendarDays tza (Date t))"
    and "e \<in> set (getEventsForDay tza events (calendarDays tza (Date t) ! i))"
  shows "e \<notin> set (getEventsForDay tza events (calendarDays tza (Date t) ! j))"
proof
  assume b: "e \<in> set (getEventsForDay tza events (calendarDays tza (Date t) ! j))"
  let ?cs = "weekStartDay (monthFirstDay (Day (LocalTime tza t)))"
  from assms(1,2) have i: "i < length (calendarDays tza (Date t))" by simp
  from assms(3) obtain u where u: "ev_start e = Date u" "Day (LocalTime tza u) = ?cs + int i"
    unfolding calendarDays_nth [OF i] getEventsForDay_midnight by blast
  from b obtain u' where u': "ev_start e = Date u'" "Day (LocalTime tza u') = ?cs + int j"
    unfolding calendarDays_nth [OF assms(2)] getEventsForDay_midnight by blast
  from u u' have "int i = int j" by simp
  with assms(1) show False by simp
qed

lemma filter_upto_eq:
  assumes "a \<le> k" "k \<le> b"
  shows "filter (\<lambda>d. d = k) [a..b] = [k]"
proof -
  have "[a..b] = [a..k - 1] @ k # [k + 1..b]" using assms by (rule upto_split3)
  then show ?thesis by (simp add: filter_empty_conv)
qed

lemma march_2025:
  assumes "getFullYear tza t = 2025" "getMonth tza t = 2"
  shows "monthFirstDay (Day (LocalTime tza t)) = 20148 \<and> monthLastDay (Day (LocalTime tza t)) = 20178"
proof -
  have "MakeDay 2025 2 1 = 20148" by code_simp
  moreover have "MakeDay 2025 (2 + 1) 0 = 20178" by code_simp
  ultimately show ?thesis
    using assms by (simp add: monthFirstDay_def monthLastDay_def getFullYear_Day getMonth_Day)
qed

lemma midterm1_day:
  assumes "- 50400000 \<le> tza" "tza < 36000000"
  shows "Day (LocalTime tza 1741615200000) = 20157"
proof -
  have "LocalTime tza 1741615200000 = 20157 * msPerDay + (50400000 + tza)"
    by (simp add: LocalTime_def msPerDay_def)
  moreover have "0 \<le> 50400000 + tza" "50400000 + tza < msPerDay"
    using assms by (simp_all add: msPerDay_def)
  ultimately show ?thesis
    using Day_MakeDate [of "50400000 + tza" 20157] by (simp add: MakeDate_def)
qed

lemma fields_20157:
  "getFullYear tza (UTC tza (MakeDate 20157 0)) = 2025 \<and>
   getMonth tza (UTC tza (MakeDate 20157 0)) = 2 \<and>
   getDate tza (UTC tza (MakeDate 20157 0)) = 10"
proof -
  have "YearFromDay 20157 = 2025" "MonthFromDay 20157 = 2" "DateFromDay 20157 = 10"
    by code_simp+
  then show ?thesis
    by (simp add: getFullYear_def getMonth_def getDate_def YearFromTime_def MonthFromTime_def
        DateFromTime_def Day_local_midnight)
qed

lemma midterm1_cells:
  assumes "- 50400000 \<le> tza" "tza < 36000000"
    and "getFullYear tza t = 2025" "getMonth tza t = 2"
  shows "filter (\<lambda>day. midterm1 \<in> set (getEventsForDay tza [midterm1] day))
           (calendarDays tza (Date t)) = [Date (UTC tza (MakeDate 20157 0))]"
proof -
  let ?D = "Day (LocalTime tza t)"
  have m: "monthFirstDay ?D = 20148" "monthLastDay ?D = 20178"
    using march_2025 [OF assms(3,4)] by simp_all
  have r: "weekStartDay 20148 \<le> 20157" "20157 \<le> weekEndDay 20178"
    by (simp_all add: weekStartDay_def weekEndDay_def)
  have p: "(midterm1 \<in> set (getEventsForDay tza [midterm1] (midnight tza d))) = (d = 20157)" for d
    unfolding getEventsForDay_midnight
    using midterm1_day [OF assms(1,2)] by (auto simp: midterm1_def)
  have "filter (\<lambda>day. midterm1 \<in> set (getEventsForDay tza [midterm1] day))
           (calendarDays tza (Date t)) =
        map (midnight tza) (filter (\<lambda>d. d = 20157) [weekStartDay 20148..weekEndDay 20178])"
    unfolding calendarDays_eq m filter_map o_def p ..
  also have "\<dots> = [midnight tza 20157]"
    by (simp only: filter_upto_eq [OF r] list.map)
  finally show ?thesis by (simp only: midnight_def)
qed

section \<open>Event positions and the rendered week view\<close>

lemma trunc_div_nonneg: "0 \<le> a \<Longrightarrow> trunc_div a b = a div b"
  by (simp add: trunc_div_def)

lemma minutes_of_day:
  assumes "0 \<le> w" "w < msPerDay"
  shows "w div msPerMinute = 60 * HourFromTime w + MinFromTime w"
proof -
  have "w div 3600000 < 24" using assms by (simp add: msPerDay_def div_less_iff_less_mult)
  moreover have "0 \<le> w div 3600000" using assms by simp
  ultimately have h: "HourFromTime w = w div 3600000" by (simp add: HourFromTime_def)
  have "w div 3600000 = (w div 60000) div 60" by (simp add: div_mult2_eq [symmetric])
  then have "w div 60000 = 60 * (w div 3600000) + (w div 60000) mod 60"
    using mult_div_mod_eq [of 60 "w div 60000"] by simp
  then show ?thesis by (simp add: h MinFromTime_def msPerMinute_def)
qed

lemma since_midnight:
  "t - setHours tza t 0 0 0 0 = TimeWithinDay (LocalTime tza t)"
proof -
  have "LocalTime tza t = MakeDate (Day (LocalTime tza t)) (TimeWithinDay (LocalTime tza t))"
    by (simp add: MakeDate_Day)
  then show ?thesis
    by (simp add: setHours_midnight UTC_def MakeDate_def LocalTime_def)
qed

lemma top_valid:
  assumes "ev_start e = Date s"
  shows "top_px (getEventPosition tza e) =
           Num (of_int (TimeWithinDay (LocalTime tza s) div msPerMinute))"
proof -
  have w: "0 \<le> TimeWithinDay (LocalTime tza s)"
    using TimeWithinDay_range [of "LocalTime tza s"] by simp
  show ?thesis
    using assms w
    by (simp add: getEventPosition_def Let_def since_midnight trunc_div_nonneg HOUR_HEIGHT_def)
qed

lemma top_hours_minutes:
  assumes "ev_start e = Date s"
  shows "top_px (getEventPosition tza e) = Num (of_int (60 * getHours tza s + getMinutes tza s))"
  using TimeWithinDay_range [of "LocalTime tza s"]
  by (simp only: top_valid [OF assms] minutes_of_day getHours_def getMinutes_def)



lemma height_invalid_end:
  "ev_end e = InvalidDate \<Longrightarrow> height_px (getEventPosition tza e) = NaN"
  by (cases "ev_start e") (simp_all add: getEventPosition_def Let_def)


lemma weekEvent_valid:
  assumes "ev_start e = Date s"
  shows "weekEvent tza e = Inr (projr (weekEvent tza e)) \<and>
         we_onClick (projr (weekEvent tza e)) = e \<and>
         we_top (projr (weekEvent tza e)) = top_px (getEventPosition tza e) \<and>
         we_height (projr (weekEvent tza e)) = height_px (getEventPosition tza e) \<and>
         we_className (projr (weekEvent tza e)) = getEventColor (ev_type e)"
  using assms by (simp add: weekEvent_def Let_def)

lemma weekDay_valid:
  "\<exists>d. weekDay tza now events (Date v) = Inr d \<and>
       wd_day d = Date v \<and>
       wd_isCurrentDay d = isToday tza now (Date v) \<and>
       wd_name d = WeekDayName (getDay tza v) \<and>
       wd_number d = DayOfMonth (getDate tza v) \<and>
       wd_events d = map (\<lambda>e. projr (weekEvent tza e)) (getEventsForDay tza events (Date v))"
proof -
  let ?es = "getEventsForDay tza events (Date v)"
  let ?g = "\<lambda>e. projr (weekEvent tza e)"
  have t: "traverse (weekEvent tza) ?es = Inr (map ?g ?es)"
  proof (rule traverse_Inr)
    fix e
    assume "e \<in> set ?es"
    then obtain s where "ev_start e = Date s" using getEventsForDay_valid_start by blast
    from weekEvent_valid [OF this] show "weekEvent tza e = Inr (?g e)" ..
  qed
  have d: "weekDay tza now events (Date v) =
     Inr \<lparr> wd_key = v, wd_day = Date v, wd_isCurrentDay = isToday tza now (Date v),
           wd_name = WeekDayName (getDay tza v), wd_number = DayOfMonth (getDate tza v),
           wd_events = map ?g ?es \<rparr>"
    unfolding weekDay_def Let_def format.simps toISOString.simps t by (simp only: sum.case)
  show ?thesis unfolding d by simp
qed

lemma weekDay_projr:
  "weekDay tza now events (Date v) = Inr (projr (weekDay tza now events (Date v)))"
  using weekDay_valid [of tza now events v] by auto

lemma weekDays_valid: "day \<in> set (weekDays tza (Date t)) \<Longrightarrow> \<exists>v. day = Date v"
  by (auto simp: weekDays_eq midnight_def)

lemma time_col_valid:
  "traverse (\<lambda>hour. format tza (addMinutes (startOfDay tza (Date t)) (hour * 60)) Fmt_ha) hours =
     Inr (map (\<lambda>hour. projr (format tza (addMinutes (startOfDay tza (Date t)) (hour * 60)) Fmt_ha))
            hours)"
  by (rule traverse_Inr) simp

lemma CalendarWeekView_valid:
  "CalendarWeekView tza now (Date t) events =
     Inr \<lparr> wv_time_col =
             map (\<lambda>hour. projr (format tza (addMinutes (startOfDay tza (Date t)) (hour * 60)) Fmt_ha))
               hours,
           wv_days = map (\<lambda>day. projr (weekDay tza now events day)) (weekDays tza (Date t)) \<rparr>"
proof -
  have d: "traverse (weekDay tza now events) (weekDays tza (Date t)) =
        Inr (map (\<lambda>day. projr (weekDay tza now events day)) (weekDays tza (Date t)))"
  proof (rule traverse_Inr)
    fix day
    assume "day \<in> set (weekDays tza (Date t))"
    then obtain v where v: "day = Date v" using weekDays_valid by blast
    show "weekDay tza now events day = Inr (projr (weekDay tza now events day))"
      unfolding v by (rule weekDay_projr)
  qed
  show ?thesis
    unfolding CalendarWeekView_def Let_def time_col_valid d by (simp only: sum.case)
qed

lemma wd_projr:
  "wd_day (projr (weekDay tza now events (Date v))) = Date v \<and>
   wd_events (projr (weekDay tza now events (Date v))) =
     map (\<lambda>e. projr (weekEvent tza e)) (getEventsForDay tza events (Date v))"
  using weekDay_valid [of tza now events v] by auto


lemma week_event_view:
  assumes "e \<in> set (getEventsForDay tza events day)"
  shows "(we_onClick (projr (weekEvent tza e)), we_top (projr (weekEvent tza e)),
          we_height (projr (weekEvent tza e))) =
         (e, top_px (getEventPosition tza e), height_px (getEventPosition tza e))"
proof -
  from assms obtain s where "ev_start e = Date s" using getEventsForDay_valid_start by blast
  from weekEvent_valid [OF this] show ?thesis by simp
qed

lemma week_events_view:
  "map (\<lambda>d. map (\<lambda>we. (we_onClick we, we_top we, we_height we)) (wd_events d))
     (map (\<lambda>day. projr (weekDay tza now events day)) (weekDays tza (Date t))) =
   map (\<lambda>day. map (\<lambda>e. (e, top_px (getEventPosition tza e), height_px (getEventPosition tza e)))
                (getEventsForDay tza events day))
     (weekDays tza (Date t))"
  unfolding map_map o_def
proof (rule map_cong [OF refl])
  fix day
  assume "day \<in> set (weekDays tza (Date t))"
  then obtain v where v: "day = Date v" using weekDays_valid by blast
  have "map (\<lambda>we. (we_onClick we, we_top we, we_height we))
          (map (\<lambda>e. projr (weekEvent tza e)) (getEventsForDay tza events day)) =
        map (\<lambda>e. (e, top_px (getEventPosition tza e), height_px (getEventPosition tza e)))
          (getEventsForDay tza events day)"
    unfolding map_map o_def by (rule map_cong [OF refl]) (rule week_event_view)
  then show "map (\<lambda>we. (we_onClick we, we_top we, we_height we))
          (wd_events (projr (weekDay tza now events day))) =
        map (\<lambda>e. (e, top_px (getEventPosition tza e), height_px (getEventPosition tza e)))
          (getEventsForDay tza events day)"
    unfolding v using wd_projr [of tza now events v] by simp
qed

lemma week_start_facts:
  "\<exists>w0. startOfWeek tza 0 (Date t) = Date w0 \<and> getDay tza w0 = 0 \<and> w0 \<le> t \<and>
        t < w0 + 7 * msPerDay \<and>
        weekDays tza (Date t) = map (\<lambda>i. Date (w0 + int i * msPerDay)) [0..<7]"
proof -
  let ?D = "Day (LocalTime tza t)"
  let ?ws = "weekStartDay ?D"
  let ?w0 = "UTC tza (MakeDate ?ws 0)"
  have a: "startOfWeek tza 0 (Date t) = Date ?w0"
    by (simp only: startOfWeek_eq midnight_def)
  have b: "getDay tza ?w0 = 0"
    by (simp only: getDay_def WeekDay_def Day_local_midnight weekStart_mod)
  have lt: "LocalTime tza t = ?D * msPerDay + TimeWithinDay (LocalTime tza t)"
    using MakeDate_Day [of "LocalTime tza t"] by (simp add: MakeDate_def)
  have w: "0 \<le> TimeWithinDay (LocalTime tza t)" "TimeWithinDay (LocalTime tza t) < msPerDay"
    using TimeWithinDay_range [of "LocalTime tza t"] by simp_all
  have r: "?ws \<le> ?D" "?D \<le> ?ws + 6"
    using weekStart_le [of ?D] weekEnd_ge [of ?D] by (simp_all add: week_span)
  have m1: "?ws * msPerDay \<le> ?D * msPerDay"
    using r(1) msPerDay_pos by (simp add: mult_right_mono)
  have m2: "(?D + 1) * msPerDay \<le> (?ws + 7) * msPerDay"
    using r(2) msPerDay_pos by (intro mult_right_mono) simp_all
  have c: "?w0 \<le> t"
    using lt w m1 unfolding UTC_def MakeDate_def LocalTime_def by linarith
  have d: "t < ?w0 + 7 * msPerDay"
    using lt w m2 unfolding UTC_def MakeDate_def LocalTime_def by (simp add: algebra_simps)
  have "length [?ws..weekEndDay ?D] = 7" by (simp add: week_span)
  then have e: "weekDays tza (Date t) = map (\<lambda>i. Date (?w0 + int i * msPerDay)) [0..<7]"
    using days_consecutive [of tza ?ws "weekEndDay ?D"] by (simp only: weekDays_eq)
  from a b c d e show ?thesis by blast
qed

lemma same_day_times:
  assumes "Day x = Day y" "x < y"
  shows "TimeWithinDay x < TimeWithinDay y"
proof -
  have "x = MakeDate (Day x) (TimeWithinDay x)" "y = MakeDate (Day y) (TimeWithinDay y)"
    by (simp_all add: MakeDate_Day)
  then have "x = Day x * msPerDay + TimeWithinDay x" "y = Day x * msPerDay + TimeWithinDay y"
    using assms(1) by (simp_all add: MakeDate_def)
  with assms(2) show ?thesis by linarith
qed

subsection \<open>Events with an Invalid Date\<close>

lemma invalid_start_no_bucket:
  "ev_start e = InvalidDate \<Longrightarrow> e \<notin> set (getEventsForDay tza events day)"
  using getEventsForDay_valid_start [of e tza events day] by auto

lemma grid_pills:
  "map (\<lambda>c. map pill_onClick (cell_pills c))
     (map (\<lambda>day. projr (dayCell tza now (Date t) events day)) (calendarDays tza (Date t))) =
   map (\<lambda>day. take 3 (getEventsForDay tza events day)) (calendarDays tza (Date t))"
  unfolding map_map o_def
proof (rule map_cong [OF refl])
  fix day
  assume "day \<in> set (calendarDays tza (Date t))"
  then obtain v where v: "day = Date v" using calendarDays_valid by blast
  show "map pill_onClick (cell_pills (projr (dayCell tza now (Date t) events day))) =
        take 3 (getEventsForDay tza events day)"
    unfolding v using cell_contents_projr [of tza now "Date t" events v] by simp
qed

lemma week_clicks:
  "map (\<lambda>d. map we_onClick (wd_events d))
     (map (\<lambda>day. projr (weekDay tza now events day)) (weekDays tza (Date t))) =
   map (getEventsForDay tza events) (weekDays tza (Date t))"
proof -
  have "map (map fst)
          (map (\<lambda>d. map (\<lambda>we. (we_onClick we, we_top we, we_height we)) (wd_events d))
             (map (\<lambda>day. projr (weekDay tza now events day)) (weekDays tza (Date t)))) =
        map (map fst)
          (map (\<lambda>day. map (\<lambda>e. (e, top_px (getEventPosition tza e), height_px (getEventPosition tza e)))
                (getEventsForDay tza events day)) (weekDays tza (Date t)))"
    by (simp only: week_events_view)
  then show ?thesis by (simp add: o_def)
qed

section \<open>The views and the system clock\<close>

lemma traverse_cong_map:
  assumes "\<And>x. map_sum id h (f x) = map_sum id h (f' x)"
  shows "map_sum id (map h) (traverse f xs) = map_sum id (map h) (traverse f' xs)"
proof (induction xs)
  case Nil
  show ?case by simp
next
  case (Cons x xs)
  from assms [of x] Cons.IH show ?case
    by (cases "f x"; cases "f' x"; cases "traverse f xs"; cases "traverse f' xs") simp_all
qed

lemma isToday_same_day:
  assumes "isSameDay tza (Date now) (Date now')"
  shows "isToday tza now day = isToday tza now' day"
proof (cases day)
  case InvalidDate
  then show ?thesis by (simp add: isToday_def del: isSameDay.simps)
next
  case (Date v)
  from assms have "Day (LocalTime tza now) = Day (LocalTime tza now')"
    by (simp only: isSameDay_valid)
  then show ?thesis by (simp add: isToday_def Date isSameDay_valid del: isSameDay.simps)
qed

lemma dayCell_same_day:
  assumes "isSameDay tza (Date now) (Date now')"
  shows "dayCell tza now currentDate events = dayCell tza now' currentDate events"
  by (rule ext) (simp only: dayCell_def isToday_same_day [OF assms])

lemma weekDay_same_day:
  assumes "isSameDay tza (Date now) (Date now')"
  shows "weekDay tza now events = weekDay tza now' events"
  by (rule ext) (simp only: weekDay_def isToday_same_day [OF assms])

lemma dayCell_clear:
  "map_sum id (\<lambda>c. c \<lparr> cell_isCurrentDay := False \<rparr>) (dayCell tza now currentDate events day) =
   map_sum id (\<lambda>c. c \<lparr> cell_isCurrentDay := False \<rparr>) (dayCell tza now' currentDate events day)"
  by (simp add: dayCell_def Let_def split: sum.splits)

lemma weekDay_clear:
  "map_sum id (\<lambda>d. d \<lparr> wd_isCurrentDay := False \<rparr>) (weekDay tza now events day) =
   map_sum id (\<lambda>d. d \<lparr> wd_isCurrentDay := False \<rparr>) (weekDay tza now' events day)"
  by (simp add: weekDay_def Let_def split: sum.splits)

lemma CalendarGrid_clear:
  "map_sum id (map (\<lambda>c. c \<lparr> cell_isCurrentDay := False \<rparr>)) (CalendarGrid tza now currentDate events) =
   map_sum id (map (\<lambda>c. c \<lparr> cell_isCurrentDay := False \<rparr>)) (CalendarGrid tza now' currentDate events)"
  unfolding CalendarGrid_def by (rule traverse_cong_map) (rule dayCell_clear)

lemma CalendarWeekView_clear:
  "map_sum id (\<lambda>view. view \<lparr> wv_days := map (\<lambda>d. d \<lparr> wd_isCurrentDay := False \<rparr>) (wv_days view) \<rparr>)
     (CalendarWeekView tza now currentDate events) =
   map_sum id (\<lambda>view. view \<lparr> wv_days := map (\<lambda>d. d \<lparr> wd_isCurrentDay := False \<rparr>) (wv_days view) \<rparr>)
     (CalendarWeekView tza now' currentDate events)"
proof -
  let ?h = "\<lambda>d. d \<lparr> wd_isCurrentDay := False \<rparr>"
  have t: "map_sum id (map ?h) (traverse (weekDay tza now events) (weekDays tza currentDate)) =
        map_sum id (map ?h) (traverse (weekDay tza now' events) (weekDays tza currentDate))"
    by (rule traverse_cong_map) (rule weekDay_clear)
  show ?thesis
    using t
    by (cases "traverse (weekDay tza now events) (weekDays tza currentDate)";
        cases "traverse (weekDay tza now' events) (weekDays tza currentDate)")
       (simp_all add: CalendarWeekView_def Let_def split: sum.splits)
qed

lemma calendarContent_clear:
  "map_sum id clearToday (calendarContent tza now view currentDate events) =
   map_sum id clearToday (calendarContent tza now' view currentDate events)"
proof (cases "view = Month")
  case True
  from CalendarGrid_clear [of tza now currentDate events now'] show ?thesis
    by (cases "CalendarGrid tza now currentDate events";
        cases "CalendarGrid tza now' currentDate events")
       (simp_all add: calendarContent_def True clearToday_def)
next
  case False
  from CalendarWeekView_clear [of tza now currentDate events now'] show ?thesis
    by (cases "CalendarWeekView tza now currentDate events";
        cases "CalendarWeekView tza now' currentDate events")
       (simp_all add: calendarContent_def False clearToday_def)
qed

section \<open>Local days, the range of time values, and rounding\<close>

lemma day_times:
  "Day t * msPerDay \<le> t \<and> t \<le> Day t * msPerDay + (msPerDay - 1)"
proof -
  have "t = Day t * msPerDay + TimeWithinDay t"
    using MakeDate_Day [of t] by (simp add: MakeDate_def)
  with TimeWithinDay_range [of t] show ?thesis by linarith
qed







lemma grid_limits:
  assumes "farFromLimits tza t"
  shows "\<exists>c0 ce. startOfWeek tza 0 (startOfMonth tza (Date t)) = Date c0 \<and>
           endOfWeek tza 0 (endOfMonth tza (Date t)) = Date ce \<and>
           - maxTime \<le> c0 \<and> c0 \<le> t \<and> t \<le> ce \<and> ce \<le> maxTime"
proof -
  let ?D = "Day (LocalTime tza t)"
  let ?cs = "weekStartDay (monthFirstDay ?D)"
  let ?ce = "weekEndDay (monthLastDay ?D)"
  have s: "startOfWeek tza 0 (startOfMonth tza (Date t)) = Date (UTC tza (MakeDate ?cs 0))"
    by (simp only: startOfMonth_eq midnight_def [of tza "MakeDay _ _ _"] startOfWeek_eq
        Day_local_midnight monthFirstDay_def getFullYear_Day getMonth_Day midnight_def)
  have e: "endOfWeek tza 0 (endOfMonth tza (Date t)) = Date (UTC tza (MakeDate ?ce (msPerDay - 1)))"
    by (simp only: endOfMonth_eq lastMs_def [of tza "MakeDay _ _ _"] endOfWeek_eq
        Day_local_lastMs monthLastDay_def getFullYear_Day getMonth_Day lastMs_def)
  have m: "monthFirstDay ?D \<le> ?D" "?D \<le> monthLastDay ?D"
    "monthLastDay ?D - monthFirstDay ?D \<le> 30"
    using month_contains [of ?D] month_days_span [of ?D] by simp_all
  have w: "monthFirstDay ?D - 6 \<le> ?cs" "?cs \<le> monthFirstDay ?D"
    "monthLastDay ?D \<le> ?ce" "?ce \<le> monthLastDay ?D + 6"
  proof -
    have "0 \<le> (monthFirstDay ?D + 4) mod 7" "(monthFirstDay ?D + 4) mod 7 < 7"
      "0 \<le> (monthLastDay ?D + 4) mod 7" "(monthLastDay ?D + 4) mod 7 < 7" by simp_all
    then show "monthFirstDay ?D - 6 \<le> ?cs" "?cs \<le> monthFirstDay ?D"
      "monthLastDay ?D \<le> ?ce" "?ce \<le> monthLastDay ?D + 6"
      unfolding weekStartDay_def weekEndDay_def by linarith+
  qed
  have r: "?D - 36 \<le> ?cs" "?cs \<le> ?D" "?D \<le> ?ce" "?ce \<le> ?D + 36"
    using m w by linarith+
  have p: "0 < msPerDay" by (rule msPerDay_pos)
  have a1: "(?D - 36) * msPerDay \<le> ?cs * msPerDay" using r(1) p by (intro mult_right_mono) simp_all
  have a2: "?cs * msPerDay \<le> ?D * msPerDay" using r(2) p by (intro mult_right_mono) simp_all
  have a3: "?D * msPerDay \<le> ?ce * msPerDay" using r(3) p by (intro mult_right_mono) simp_all
  have a4: "?ce * msPerDay \<le> (?D + 36) * msPerDay" using r(4) p by (intro mult_right_mono) simp_all
  have d: "?D * msPerDay \<le> t + tza" "t + tza \<le> ?D * msPerDay + (msPerDay - 1)"
    using day_times [of "LocalTime tza t"] by (simp_all add: LocalTime_def)
  from assms have f: "- msPerDay \<le> tza" "tza \<le> msPerDay"
    "- maxTime + 45 * msPerDay \<le> t" "t \<le> maxTime - 45 * msPerDay"
    by (simp_all add: farFromLimits_def)
  have "- maxTime \<le> UTC tza (MakeDate ?cs 0)"
    unfolding UTC_def MakeDate_def using a1 d f p by (simp add: algebra_simps)
  moreover have "UTC tza (MakeDate ?cs 0) \<le> t"
    unfolding UTC_def MakeDate_def using a2 d by linarith
  moreover have "t \<le> UTC tza (MakeDate ?ce (msPerDay - 1))"
    unfolding UTC_def MakeDate_def using a3 d by linarith
  moreover have "UTC tza (MakeDate ?ce (msPerDay - 1)) \<le> maxTime"
    unfolding UTC_def MakeDate_def using a4 d f p by (simp add: algebra_simps)
  ultimately show ?thesis using s e by blast
qed

lemma week_limits:
  assumes "farFromLimits tza t"
  shows "\<exists>w0 we. startOfWeek tza 0 (Date t) = Date w0 \<and> endOfWeek tza 0 (Date t) = Date we \<and>
           getDay tza w0 = 0 \<and> - maxTime \<le> w0 \<and> w0 \<le> t \<and> t \<le> we \<and> we \<le> maxTime"
proof -
  let ?D = "Day (LocalTime tza t)"
  let ?ws = "weekStartDay ?D"
  let ?we = "weekEndDay ?D"
  have s: "startOfWeek tza 0 (Date t) = Date (UTC tza (MakeDate ?ws 0))"
    by (simp only: startOfWeek_eq midnight_def)
  have e: "endOfWeek tza 0 (Date t) = Date (UTC tza (MakeDate ?we (msPerDay - 1)))"
    by (simp only: endOfWeek_eq lastMs_def)
  have g: "getDay tza (UTC tza (MakeDate ?ws 0)) = 0"
    by (simp only: getDay_def WeekDay_def Day_local_midnight weekStart_mod)
  have r: "?D - 6 \<le> ?ws" "?ws \<le> ?D" "?D \<le> ?we" "?we \<le> ?D + 6"
    using weekStart_le [of ?D] weekEnd_ge [of ?D] week_span [of ?D] by linarith+
  have p: "0 < msPerDay" by (rule msPerDay_pos)
  have a1: "(?D - 6) * msPerDay \<le> ?ws * msPerDay" using r(1) p by (intro mult_right_mono) simp_all
  have a2: "?ws * msPerDay \<le> ?D * msPerDay" using r(2) p by (intro mult_right_mono) simp_all
  have a3: "?D * msPerDay \<le> ?we * msPerDay" using r(3) p by (intro mult_right_mono) simp_all
  have a4: "?we * msPerDay \<le> (?D + 6) * msPerDay" using r(4) p by (intro mult_right_mono) simp_all
  have d: "?D * msPerDay \<le> t + tza" "t + tza \<le> ?D * msPerDay + (msPerDay - 1)"
    using day_times [of "LocalTime tza t"] by (simp_all add: LocalTime_def)
  from assms have f: "- msPerDay \<le> tza" "tza \<le> msPerDay"
    "- maxTime + 45 * msPerDay \<le> t" "t \<le> maxTime - 45 * msPerDay"
    by (simp_all add: farFromLimits_def)
  have "- maxTime \<le> UTC tza (MakeDate ?ws 0)"
    unfolding UTC_def MakeDate_def using a1 d f p by (simp add: algebra_simps)
  moreover have "UTC tza (MakeDate ?ws 0) \<le> t"
    unfolding UTC_def MakeDate_def using a2 d by linarith
  moreover have "t \<le> UTC tza (MakeDate ?we (msPerDay - 1))"
    unfolding UTC_def MakeDate_def using a3 d by linarith
  moreover have "UTC tza (MakeDate ?we (msPerDay - 1)) \<le> maxTime"
    unfolding UTC_def MakeDate_def using a4 d f p by (simp add: algebra_simps)
  ultimately show ?thesis using s e g by blast
qed




lemma getEventsForDay_valid_only:
  "getEventsForDay tza (filter (\<lambda>e. ev_start e \<noteq> InvalidDate) events) day =
   getEventsForDay tza events day"
proof -
  have "isSameDay tza (ev_start e) day \<Longrightarrow> ev_start e \<noteq> InvalidDate" for e
    by (cases "ev_start e") (simp_all del: isSameDay.simps)
  then show ?thesis
    unfolding getEventsForDay_def Let_def filter_filter
    by (intro filter_cong) auto
qed

lemma dayCell_valid_only:
  "dayCell tza now currentDate (filter (\<lambda>e. ev_start e \<noteq> InvalidDate) events) =
   dayCell tza now currentDate events"
  by (rule ext) (simp only: dayCell_def getEventsForDay_valid_only)

lemma weekDay_valid_only:
  "weekDay tza now (filter (\<lambda>e. ev_start e \<noteq> InvalidDate) events) = weekDay tza now events"
  by (rule ext) (simp only: weekDay_def getEventsForDay_valid_only)

lemma calendarContent_valid_only:
  "calendarContent tza now view currentDate (filter (\<lambda>e. ev_start e \<noteq> InvalidDate) events) =
   calendarContent tza now view currentDate events"
  by (simp only: calendarContent_def CalendarGrid_def CalendarWeekView_def dayCell_valid_only
      weekDay_valid_only)

section \<open>Properties of getEventColor\<close>

lemma includes_str_sublist: "includes_str s k = sublist k s"
proof (induction s)
  case Nil
  show ?case by simp
next
  case (Cons c cs)
  show ?case by (simp add: Cons.IH sublist_Cons_right)
qed

lemma getEventColor_values:
  "getEventColor ty \<in> {''blue'', ''orange'', ''red'', ''purple'', ''green'', ''gray''}"
  by (simp add: getEventColor_def Let_def)

lemma getEventColor_rules: "getEventColor ty = categorize_rules ty"
  by (simp add: getEventColor_def categorize_rules_def colorRules_def Let_def
      includes_str_sublist)

lemma color_class: "getEventColor ''class'' = ''blue''"
  by code_simp

lemma color_test: "getEventColor ''test'' = ''orange''"
  by code_simp

lemma color_exam: "getEventColor ''exam'' = ''red''"
  by code_simp

lemma color_homework: "getEventColor ''homework'' = ''purple''"
  by code_simp

lemma color_quiz: "getEventColor ''quiz'' = ''green''"
  by code_simp

lemma color_empty: "getEventColor [] = ''gray''"
  by code_simp

text \<open>
  \<open>getEventColor\<close> is the first-match-wins evaluation of the ordered rule list over the
  lower-cased label, with the fallback \<open>gray\<close>, and it has exactly six results.
\<close>

lemma getEventColor_six_classes:
  "getEventColor ty = categorize_rules ty \<and>
   range getEventColor = {''blue'', ''orange'', ''red'', ''purple'', ''green'', ''gray''}"
proof
  show "getEventColor ty = categorize_rules ty" by (rule getEventColor_rules)
next
  show "range getEventColor = {''blue'', ''orange'', ''red'', ''purple'', ''green'', ''gray''}"
  proof
    show "range getEventColor \<subseteq> {''blue'', ''orange'', ''red'', ''purple'', ''green'', ''gray''}"
      using getEventColor_values by blast
  next
    have "''blue'' \<in> range getEventColor"
      using color_class [symmetric] by (rule range_eqI)
    moreover have "''orange'' \<in> range getEventColor"
      using color_test [symmetric] by (rule range_eqI)
    moreover have "''red'' \<in> range getEventColor"
      using color_exam [symmetric] by (rule range_eqI)
    moreover have "''purple'' \<in> range getEventColor"
      using color_homework [symmetric] by (rule range_eqI)
    moreover have "''green'' \<in> range getEventColor"
      using color_quiz [symmetric] by (rule range_eqI)
    moreover have "''gray'' \<in> range getEventColor"
      using color_empty [symmetric] by (rule range_eqI)
    ultimately show
      "{''blue'', ''orange'', ''red'', ''purple'', ''green'', ''gray''} \<subseteq> range getEventColor"
      by simp
  qed
qed

text \<open>
  Claim C4: every label maps to exactly one of seven categories, among them "lab" apart
  from "lecture/class", and "assignment/project".  \<open>getEventColor\<close> gives a lab label the
  class of a lecture label, and a project label the fallback class and not the class of an
  assignment label: it has six categories.  The categorizer of the event list,
  \<open>getEventTypeColor\<close>, keeps lab apart from lecture and puts project with assignment, for
  the same labels.
\<close>

theorem getEventColor_lab_divergence:
  "getEventColor ''Lab'' = ''blue'' \<and> getEventColor ''Lecture'' = ''blue'' \<and>
   getEventTypeColor ''Lab'' = ''purple'' \<and> getEventTypeColor ''Lecture'' = ''blue'' \<and>
   getEventColor ''Project'' = ''gray'' \<and> getEventColor ''Assignment'' = ''purple'' \<and>
   getEventTypeColor ''Project'' = ''green'' \<and> getEventTypeColor ''Assignment'' = ''green''"
  by code_simp

text \<open>
  Claim C10: \<open>getEventColor\<close> has no rule for "project".  A label that contains "project"
  in any letter case, and none of the ten keywords of the rules, gets the fallback
  \<open>gray\<close>.
\<close>

theorem getEventColor_project_unmatched:
  assumes "includes_str (toLowerCase ty) ''project''"
    and "\<not> includes_str (toLowerCase ty) ''class''"
    and "\<not> includes_str (toLowerCase ty) ''lecture''"
    and "\<not> includes_str (toLowerCase ty) ''lab''"
    and "\<not> includes_str (toLowerCase ty) ''midterm''"
    and "\<not> includes_str (toLowerCase ty) ''test''"
    and "\<not> includes_str (toLowerCase ty) ''final''"
    and "\<not> includes_str (toLowerCase ty) ''exam''"
    and "\<not> includes_str (toLowerCase ty) ''assignment''"
    and "\<not> includes_str (toLowerCase ty) ''homework''"
    and "\<not> includes_str (toLowerCase ty) ''quiz''"
  shows "getEventColor ty = ''gray''"
  using assms by (simp add: getEventColor_def Let_def)

theorem getEventColor_project_unmatched_witness:
  "includes_str (toLowerCase ''Group Project'') ''project'' \<and>
   getEventColor ''Group Project'' = ''gray''"
proof -
  have h: "includes_str (toLowerCase ''Group Project'') ''project''" by code_simp
  have n: "\<not> includes_str (toLowerCase ''Group Project'') ''class''"
    "\<not> includes_str (toLowerCase ''Group Project'') ''lecture''"
    "\<not> includes_str (toLowerCase ''Group Project'') ''lab''"
    "\<not> includes_str (toLowerCase ''Group Project'') ''midterm''"
    "\<not> includes_str (toLowerCase ''Group Project'') ''test''"
    "\<not> includes_str (toLowerCase ''Group Project'') ''final''"
    "\<not> includes_str (toLowerCase ''Group Project'') ''exam''"
    "\<not> includes_str (toLowerCase ''Group Project'') ''assignment''"
    "\<not> includes_str (toLowerCase ''Group Project'') ''homework''"
    "\<not> includes_str (toLowerCase ''Group Project'') ''quiz''"
    by code_simp+
  from getEventColor_project_unmatched [OF h n] h show ?thesis by simp
qed

section \<open>Properties of the month grid\<close>







text \<open>
  Claim C3: for every valid \<open>currentDate\<close> the grid is rendered and, cell by cell, the
  events shown are the first three events of the day in input order (all of them when
  there are at most three), and the overflow count is \<open>n - 3\<close> when the day has \<open>n > 3\<close>
  events and absent otherwise.
\<close>

theorem CalendarGrid_overflow:
  "\<exists>cells. CalendarGrid tza now (Date t) events = Inr cells \<and>
     map cell_day cells = calendarDays tza (Date t) \<and>
     map (\<lambda>c. (map pill_onClick (cell_pills c), length (cell_pills c), cell_more c)) cells =
     map (\<lambda>day. let dayEvents = getEventsForDay tza events day; n = length dayEvents
                 in (take 3 dayEvents, min 3 n, if n > 3 then Some (n - 3) else None))
       (calendarDays tza (Date t))"
proof -
  let ?g = "\<lambda>day. projr (dayCell tza now (Date t) events day)"
  let ?cells = "map ?g (calendarDays tza (Date t))"
  have "(map pill_onClick (cell_pills (?g day)), length (cell_pills (?g day)), cell_more (?g day)) =
        (let dayEvents = getEventsForDay tza events day; n = length dayEvents
         in (take 3 dayEvents, min 3 n, if n > 3 then Some (n - 3) else None))"
    if "day \<in> set (calendarDays tza (Date t))" for day
  proof -
    from that obtain v where v: "day = Date v" using calendarDays_valid by blast
    have c: "map pill_onClick (cell_pills (?g day)) = take 3 (getEventsForDay tza events day)"
      "cell_more (?g day) = (if length (getEventsForDay tza events day) > 3
         then Some (length (getEventsForDay tza events day) - 3) else None)"
      unfolding v using cell_contents_projr [of tza now "Date t" events v] by simp_all
    have "length (cell_pills (?g day)) = length (map pill_onClick (cell_pills (?g day)))"
      by simp
    also have "\<dots> = min 3 (length (getEventsForDay tza events day))"
      unfolding c(1) by (simp add: min.commute)
    finally show ?thesis using c by (simp add: Let_def)
  qed
  then have "map (\<lambda>c. (map pill_onClick (cell_pills c), length (cell_pills c), cell_more c)) ?cells =
     map (\<lambda>day. let dayEvents = getEventsForDay tza events day; n = length dayEvents
                 in (take 3 dayEvents, min 3 n, if n > 3 then Some (n - 3) else None))
       (calendarDays tza (Date t))"
    unfolding map_map o_def by (intro map_cong) simp_all
  with CalendarGrid_valid cell_days_grid show ?thesis by blast
qed

text \<open>
  Five lectures on 2025-03-10: the cell of that day shows the first three and "+2 more";
  the next cell shows nothing and has no overflow.
\<close>

theorem CalendarGrid_overflow_witness:
  "\<exists>cells. CalendarGrid 0 0 (Date 1741615200000) fiveLectures = Inr cells \<and>
     map pill_onClick (cell_pills (cells ! 15)) = take 3 fiveLectures \<and>
     length (cell_pills (cells ! 15)) = 3 \<and> cell_more (cells ! 15) = Some 2 \<and>
     length (cell_pills (cells ! 16)) = 0 \<and> cell_more (cells ! 16) = None"
proof -
  let ?f = "\<lambda>c. (map pill_onClick (cell_pills c), length (cell_pills c), cell_more c)"
  let ?h = "\<lambda>day. let dayEvents = getEventsForDay 0 fiveLectures day; n = length dayEvents
                 in (take 3 dayEvents, min 3 n, if n > 3 then Some (n - 3) else None)"
  from CalendarGrid_overflow [of 0 0 1741615200000 fiveLectures]
  obtain cells where g: "CalendarGrid 0 0 (Date 1741615200000) fiveLectures = Inr cells"
    and d: "map cell_day cells = calendarDays 0 (Date 1741615200000)"
    and m: "map ?f cells = map ?h (calendarDays 0 (Date 1741615200000))"
    by blast
  have l: "length (calendarDays 0 (Date 1741615200000)) = 42" by code_simp
  have lc: "length cells = 42" using d l by (metis length_map)
  have a: "?h (calendarDays 0 (Date 1741615200000) ! 15) = (take 3 fiveLectures, 3, Some 2)"
    by code_simp
  have b: "?h (calendarDays 0 (Date 1741615200000) ! 16) = ([], 0, None)"
    by code_simp
  have "?f (cells ! 15) = map ?f cells ! 15" using lc by simp
  also have "\<dots> = ?h (calendarDays 0 (Date 1741615200000) ! 15)"
    unfolding m using l by simp
  finally have a': "?f (cells ! 15) = (take 3 fiveLectures, 3, Some 2)" using a by simp
  have "?f (cells ! 16) = map ?f cells ! 16" using lc by simp
  also have "\<dots> = ?h (calendarDays 0 (Date 1741615200000) ! 16)"
    unfolding m using l by simp
  finally have b': "?f (cells ! 16) = ([], 0, None)" using b by simp
  from g a' b' show ?thesis by simp
qed

text \<open>
  Claim C2, as the code has it.  An event is in the bucket of a day exactly when it is in
  the event list and its start is a valid date with the year, month and day of the month
  of that day, all read in local time.  No event is in the buckets of two different cells
  of a month grid.  The midterm that starts at 2025-03-10T14:00:00Z is, on a grid of March
  2025, in the bucket of exactly one cell, the one of its local date: that is the cell
  dated 2025-03-10 when the local offset is from -14:00 up to, but not including, +10:00.
\<close>

theorem getEventsForDay_same_date:
  "(e \<in> set (getEventsForDay tza events (Date v)) \<longleftrightarrow>
      e \<in> set events \<and>
      (\<exists>u. ev_start e = Date u \<and> getFullYear tza u = getFullYear tza v \<and>
           getMonth tza u = getMonth tza v \<and> getDate tza u = getDate tza v)) \<and>
   (i < j \<longrightarrow> j < length (calendarDays tza (Date t)) \<longrightarrow>
      e \<in> set (getEventsForDay tza events (calendarDays tza (Date t) ! i)) \<longrightarrow>
      e \<notin> set (getEventsForDay tza events (calendarDays tza (Date t) ! j))) \<and>
   (- 50400000 \<le> tza \<longrightarrow> tza < 36000000 \<longrightarrow>
      getFullYear tza t = 2025 \<longrightarrow> getMonth tza t = 2 \<longrightarrow>
      filter (\<lambda>day. midterm1 \<in> set (getEventsForDay tza [midterm1] day))
        (calendarDays tza (Date t)) = [Date (UTC tza (MakeDate 20157 0))] \<and>
      getFullYear tza (UTC tza (MakeDate 20157 0)) = 2025 \<and>
      getMonth tza (UTC tza (MakeDate 20157 0)) = 2 \<and>
      getDate tza (UTC tza (MakeDate 20157 0)) = 10)"
  using getEventsForDay_iff [of e tza events v] buckets_disjoint [of i j tza t e events]
    midterm1_cells [of tza t] fields_20157 [of tza]
  by blast

text \<open>The three parts at concrete inputs, in UTC.\<close>

theorem getEventsForDay_same_date_witness:
  "midterm1 \<in> set (getEventsForDay 0 [midterm1] (Date 1741564800000)) \<and>
   16 < length (calendarDays 0 (Date 1741615200000)) \<and>
   midterm1 \<in> set (getEventsForDay 0 [midterm1] (calendarDays 0 (Date 1741615200000) ! 15)) \<and>
   midterm1 \<notin> set (getEventsForDay 0 [midterm1] (calendarDays 0 (Date 1741615200000) ! 16)) \<and>
   filter (\<lambda>day. midterm1 \<in> set (getEventsForDay 0 [midterm1] day))
     (calendarDays 0 (Date 1741615200000)) = [Date 1741564800000]"
proof -
  have s: "midterm1 \<in> set [midterm1]" by simp
  have u: "ev_start midterm1 = Date 1741615200000" by (simp add: midterm1_def)
  have f: "getFullYear 0 1741615200000 = getFullYear 0 1741564800000"
    "getMonth 0 1741615200000 = getMonth 0 1741564800000"
    "getDate 0 1741615200000 = getDate 0 1741564800000"
    by code_simp+
  have l: "16 < length (calendarDays 0 (Date 1741615200000))" by code_simp
  have c: "calendarDays 0 (Date 1741615200000) ! 15 = Date 1741564800000" by code_simp
  have y: "getFullYear 0 1741615200000 = 2025" "getMonth 0 1741615200000 = 2" by code_simp+
  have z: "(- 50400000 :: int) \<le> 0" "(0 :: int) < 36000000" "(15 :: nat) < 16" by simp_all
  have d: "Date (UTC 0 (MakeDate 20157 0)) = Date 1741564800000"
    by (simp add: UTC_def MakeDate_def msPerDay_def)
  note t = getEventsForDay_same_date [of midterm1 0 "[midterm1]" 1741564800000 15 16 1741615200000]
  from t s u f have a: "midterm1 \<in> set (getEventsForDay 0 [midterm1] (Date 1741564800000))"
    by blast
  then have a': "midterm1 \<in> set (getEventsForDay 0 [midterm1] (calendarDays 0 (Date 1741615200000) ! 15))"
    by (simp only: c)
  from t z l a' have b: "midterm1 \<notin> set (getEventsForDay 0 [midterm1] (calendarDays 0 (Date 1741615200000) ! 16))"
    by blast
  from t z y have "filter (\<lambda>day. midterm1 \<in> set (getEventsForDay 0 [midterm1] day))
     (calendarDays 0 (Date 1741615200000)) = [Date (UTC 0 (MakeDate 20157 0))]"
    by blast
  with d a l a' b show ?thesis by (simp only:) simp
qed

text \<open>
  Claim C2 as stated puts the midterm in the cell dated 2025-03-10 whatever the time zone.
  At the offset +10:00 the grid of March 2025 has the midterm in the cell dated 11, and
  none in the cell dated 10.
\<close>

theorem midterm1_cell_counterexample:
  "getMonth 36000000 1741615200000 = 2 \<and>
   format 36000000 (calendarDays 36000000 (Date 1741615200000) ! 15) Fmt_d = Inr (DayOfMonth 10) \<and>
   map ev_id (getEventsForDay 36000000 [midterm1] (calendarDays 36000000 (Date 1741615200000) ! 15)) = [] \<and>
   format 36000000 (calendarDays 36000000 (Date 1741615200000) ! 16) Fmt_d = Inr (DayOfMonth 11) \<and>
   map ev_id (getEventsForDay 36000000 [midterm1] (calendarDays 36000000 (Date 1741615200000) ! 16)) = [ev_id midterm1]"
  by code_simp

section \<open>Properties of the week view\<close>




text \<open>
  Claim C8: of two events placed on the same day, the one that starts strictly earlier has
  an offset that is not greater.
\<close>

theorem top_monotone:
  assumes "A \<in> set (getEventsForDay tza events day)"
    and "B \<in> set (getEventsForDay tza events day)"
    and "ev_start A = Date a" and "ev_start B = Date b" and "a < b"
  shows "\<exists>x y. top_px (getEventPosition tza A) = Num x \<and>
               top_px (getEventPosition tza B) = Num y \<and> x \<le> y"
proof -
  from assms(1) obtain v where v: "day = Date v"
    by (cases day) (simp_all add: getEventsForDay_def Let_def del: isSameDay.simps)
  from assms(1,3) have "Day (LocalTime tza a) = Day (LocalTime tza v)"
    by (simp add: getEventsForDay_def Let_def v isSameDay_valid del: isSameDay.simps)
  moreover from assms(2,4) have "Day (LocalTime tza b) = Day (LocalTime tza v)"
    by (simp add: getEventsForDay_def Let_def v isSameDay_valid del: isSameDay.simps)
  ultimately have "Day (LocalTime tza a) = Day (LocalTime tza b)" by simp
  moreover have "LocalTime tza a < LocalTime tza b" using assms(5) by (simp add: LocalTime_def)
  ultimately have "TimeWithinDay (LocalTime tza a) < TimeWithinDay (LocalTime tza b)"
    by (rule same_day_times)
  then have "TimeWithinDay (LocalTime tza a) div msPerMinute \<le>
             TimeWithinDay (LocalTime tza b) div msPerMinute"
    by (intro zdiv_mono1) (simp_all add: msPerMinute_def)
  then have "(of_int (TimeWithinDay (LocalTime tza a) div msPerMinute) :: rat) \<le>
             of_int (TimeWithinDay (LocalTime tza b) div msPerMinute)"
    by simp
  with top_valid [OF assms(3), of tza] top_valid [OF assms(4), of tza] show ?thesis by blast
qed

theorem top_monotone_witness:
  "midterm1 \<in> set (getEventsForDay 0 [lectureAt ''l5'' 1741618800000, midterm1] (Date 1741564800000)) \<and>
   lectureAt ''l5'' 1741618800000
     \<in> set (getEventsForDay 0 [lectureAt ''l5'' 1741618800000, midterm1] (Date 1741564800000)) \<and>
   (\<exists>x y. top_px (getEventPosition 0 midterm1) = Num x \<and>
          top_px (getEventPosition 0 (lectureAt ''l5'' 1741618800000)) = Num y \<and> x \<le> y)"
proof -
  let ?es = "[lectureAt ''l5'' 1741618800000, midterm1]"
  have d: "Day (LocalTime 0 1741615200000) = Day (LocalTime 0 1741564800000)"
    "Day (LocalTime 0 1741618800000) = Day (LocalTime 0 1741564800000)"
    by (simp_all add: Day_def LocalTime_def msPerDay_def)
  have a: "midterm1 \<in> set (getEventsForDay 0 ?es (Date 1741564800000))"
    using d by (simp add: getEventsForDay_def Let_def isSameDay_valid midterm1_def lectureAt_def
        del: isSameDay.simps)
  have b: "lectureAt ''l5'' 1741618800000 \<in> set (getEventsForDay 0 ?es (Date 1741564800000))"
    using d by (simp add: getEventsForDay_def Let_def isSameDay_valid midterm1_def lectureAt_def
        del: isSameDay.simps)
  have sa: "ev_start midterm1 = Date 1741615200000" by (simp add: midterm1_def)
  have sb: "ev_start (lectureAt ''l5'' 1741618800000) = Date 1741618800000"
    by (simp add: lectureAt_def)
  have lt: "(1741615200000 :: int) < 1741618800000" by simp
  from top_monotone [OF a b sa sb lt] a b show ?thesis by blast
qed

section \<open>Events that cannot be placed, and the system clock\<close>

text \<open>
  Claim C6, as the code has it.  For every event list and every valid \<open>currentDate\<close> that is
  far from the limits of the range of time values, both views are rendered, from dates
  within the range: nothing is thrown.  An event whose start is an Invalid Date is in no
  day bucket, in no cell of the month grid and in no day of the week view; events are
  placed by their start alone.  The rendered content is the same with and without the
  events whose start is an Invalid Date: it carries nothing about them, so no count of
  them either.
\<close>

theorem invalid_start_excluded:
  assumes "farFromLimits tza t"
  shows
  "(ev_start e = InvalidDate \<longrightarrow>
      e \<notin> set (getEventsForDay tza events day) \<and>
      (\<exists>cells. CalendarGrid tza now (Date t) events = Inr cells \<and>
         e \<notin> set (concat (map (\<lambda>c. map pill_onClick (cell_pills c)) cells))) \<and>
      (\<exists>view. CalendarWeekView tza now (Date t) events = Inr view \<and>
         e \<notin> set (concat (map (\<lambda>d. map we_onClick (wd_events d)) (wv_days view))))) \<and>
   (\<exists>cells c0 ce. CalendarGrid tza now (Date t) events = Inr cells \<and>
      startOfWeek tza 0 (startOfMonth tza (Date t)) = Date c0 \<and>
      endOfWeek tza 0 (endOfMonth tza (Date t)) = Date ce \<and>
      - maxTime \<le> c0 \<and> c0 \<le> t \<and> t \<le> ce \<and> ce \<le> maxTime) \<and>
   (\<exists>view w0 we. CalendarWeekView tza now (Date t) events = Inr view \<and>
      startOfWeek tza 0 (Date t) = Date w0 \<and> endOfWeek tza 0 (Date t) = Date we \<and>
      - maxTime \<le> w0 \<and> w0 \<le> t \<and> t \<le> we \<and> we \<le> maxTime) \<and>
   calendarContent tza now view (Date t) (filter (\<lambda>e. ev_start e \<noteq> InvalidDate) events) =
   calendarContent tza now view (Date t) events"
proof (intro conjI impI)
  assume a: "ev_start e = InvalidDate"
  then show "e \<notin> set (getEventsForDay tza events day)" by (rule invalid_start_no_bucket)
  let ?cells = "map (\<lambda>day. projr (dayCell tza now (Date t) events day)) (calendarDays tza (Date t))"
  have "e \<notin> set (concat (map (\<lambda>day. take 3 (getEventsForDay tza events day))
                 (calendarDays tza (Date t))))"
    using invalid_start_no_bucket [OF a, of tza events] by (auto dest: in_set_takeD)
  then have "e \<notin> set (concat (map (\<lambda>c. map pill_onClick (cell_pills c)) ?cells))"
    unfolding grid_pills .
  with CalendarGrid_valid [of tza now t events]
  show "\<exists>cells. CalendarGrid tza now (Date t) events = Inr cells \<and>
         e \<notin> set (concat (map (\<lambda>c. map pill_onClick (cell_pills c)) cells))"
    by blast
  let ?view = "\<lparr> wv_time_col =
             map (\<lambda>hour. projr (format tza (addMinutes (startOfDay tza (Date t)) (hour * 60)) Fmt_ha))
               hours,
           wv_days = map (\<lambda>day. projr (weekDay tza now events day)) (weekDays tza (Date t)) \<rparr>"
  have "e \<notin> set (concat (map (getEventsForDay tza events) (weekDays tza (Date t))))"
    using invalid_start_no_bucket [OF a, of tza events] by auto
  then have "e \<notin> set (concat (map (\<lambda>d. map we_onClick (wd_events d)) (wv_days ?view)))"
    unfolding week_view.simps week_clicks .
  with CalendarWeekView_valid [of tza now t events]
  show "\<exists>view. CalendarWeekView tza now (Date t) events = Inr view \<and>
         e \<notin> set (concat (map (\<lambda>d. map we_onClick (wd_events d)) (wv_days view)))"
    by blast
next
  show "\<exists>cells c0 ce. CalendarGrid tza now (Date t) events = Inr cells \<and>
      startOfWeek tza 0 (startOfMonth tza (Date t)) = Date c0 \<and>
      endOfWeek tza 0 (endOfMonth tza (Date t)) = Date ce \<and>
      - maxTime \<le> c0 \<and> c0 \<le> t \<and> t \<le> ce \<and> ce \<le> maxTime"
    using CalendarGrid_valid [of tza now t events] grid_limits [OF assms] by blast
next
  show "\<exists>view w0 we. CalendarWeekView tza now (Date t) events = Inr view \<and>
      startOfWeek tza 0 (Date t) = Date w0 \<and> endOfWeek tza 0 (Date t) = Date we \<and>
      - maxTime \<le> w0 \<and> w0 \<le> t \<and> t \<le> we \<and> we \<le> maxTime"
    using CalendarWeekView_valid [of tza now t events] week_limits [OF assms] by blast
next
  show "calendarContent tza now view (Date t) (filter (\<lambda>e. ev_start e \<noteq> InvalidDate) events) =
        calendarContent tza now view (Date t) events"
    by (rule calendarContent_valid_only)
qed

theorem invalid_start_excluded_witness:
  "farFromLimits 0 1741615200000 \<and> ev_start badStart = InvalidDate \<and>
   badStart \<notin> set (getEventsForDay 0 [badStart, midterm1] (Date 1741564800000)) \<and>
   (\<exists>cells. CalendarGrid 0 0 (Date 1741615200000) [badStart, midterm1] = Inr cells \<and>
      badStart \<notin> set (concat (map (\<lambda>c. map pill_onClick (cell_pills c)) cells))) \<and>
   (\<exists>view. CalendarWeekView 0 0 (Date 1741615200000) [badStart, midterm1] = Inr view \<and>
      badStart \<notin> set (concat (map (\<lambda>d. map we_onClick (wd_events d)) (wv_days view)))) \<and>
   calendarContent 0 0 Week (Date 1741615200000)
     (filter (\<lambda>e. ev_start e \<noteq> InvalidDate) [badStart, midterm1]) =
   calendarContent 0 0 Week (Date 1741615200000) [badStart, midterm1]"
proof -
  have f: "farFromLimits 0 1741615200000"
    by (simp add: farFromLimits_def maxTime_def msPerDay_def)
  have a: "ev_start badStart = InvalidDate" by (simp add: badStart_def)
  note t = invalid_start_excluded
    [OF f, where e = badStart and events = "[badStart, midterm1]"
      and day = "Date 1741564800000" and now = 0 and view = Week]
  from t a have "badStart \<notin> set (getEventsForDay 0 [badStart, midterm1] (Date 1741564800000))"
    "\<exists>cells. CalendarGrid 0 0 (Date 1741615200000) [badStart, midterm1] = Inr cells \<and>
      badStart \<notin> set (concat (map (\<lambda>c. map pill_onClick (cell_pills c)) cells))"
    "\<exists>view. CalendarWeekView 0 0 (Date 1741615200000) [badStart, midterm1] = Inr view \<and>
      badStart \<notin> set (concat (map (\<lambda>d. map we_onClick (wd_events d)) (wv_days view)))"
    "calendarContent 0 0 Week (Date 1741615200000)
       (filter (\<lambda>e. ev_start e \<noteq> InvalidDate) [badStart, midterm1]) =
     calendarContent 0 0 Week (Date 1741615200000) [badStart, midterm1]"
    by blast+
  with f a show ?thesis by (intro conjI)
qed

text \<open>
  Claim C6 as stated excludes every event with an unparseable start or end from every day
  bucket.  The midterm with an unparseable end is in the bucket of 2025-03-10, and the
  month grid shows it in the cell of that day.
\<close>

theorem invalid_end_counterexample:
  "ev_end badEnd = InvalidDate \<and>
   map ev_id (getEventsForDay 0 [badEnd] (Date 1741564800000)) = [ev_id badEnd] \<and>
   map_sum id (concat \<circ> map (map (ev_id \<circ> pill_onClick) \<circ> cell_pills))
     (CalendarGrid 0 0 (Date 1741615200000) [badEnd]) = Inr [ev_id badEnd]"
  by code_simp

text \<open>
  Claim C7, as the code has it.  The rendered content is a function of the events,
  \<open>currentDate\<close> and the view mode together with two values of the environment: the offset
  of the local time zone and the system clock, which \<open>isToday\<close> reads for the "today"
  flag of every day.  Two clock values on the same local day give the same content, and
  any two clock values give contents that differ at most in the "today" flags.  Functions
  of the model have no effects by construction, so what the claim says of side effects and
  of mutating the inputs is not part of the statement.
\<close>

theorem calendarContent_clock:
  "(isSameDay tza (Date now) (Date now') \<longrightarrow>
      calendarContent tza now view currentDate events =
      calendarContent tza now' view currentDate events) \<and>
   map_sum id clearToday (calendarContent tza now view currentDate events) =
   map_sum id clearToday (calendarContent tza now' view currentDate events)"
proof (intro conjI impI)
  assume a: "isSameDay tza (Date now) (Date now')"
  show "calendarContent tza now view currentDate events =
        calendarContent tza now' view currentDate events"
    by (simp only: calendarContent_def CalendarGrid_def CalendarWeekView_def
        dayCell_same_day [OF a] weekDay_same_day [OF a])
next
  show "map_sum id clearToday (calendarContent tza now view currentDate events) =
        map_sum id clearToday (calendarContent tza now' view currentDate events)"
    by (rule calendarContent_clear)
qed

theorem calendarContent_clock_witness:
  "isSameDay 0 (Date 1741615200000) (Date 1741620600000) \<and>
   calendarContent 0 1741615200000 Week (Date 1741615200000) [midterm1] =
   calendarContent 0 1741620600000 Week (Date 1741615200000) [midterm1]"
proof -
  have "Day (LocalTime 0 1741615200000) = Day (LocalTime 0 1741620600000)"
    by (simp add: Day_def LocalTime_def msPerDay_def)
  then have a: "isSameDay 0 (Date 1741615200000) (Date 1741620600000)"
    by (simp only: isSameDay_valid)
  from calendarContent_clock [of 0 1741615200000 1741620600000 Week "Date 1741615200000" "[midterm1]"] a
  show ?thesis by blast
qed

text \<open>
  Claim C7 as stated makes the output depend on the events, \<open>currentDate\<close> and the view mode
  only.  The month grid of January 1970 with no events, rendered when the clock reads
  1970-01-01 and when it reads 1970-01-02, has different "today" flags.
\<close>

theorem clock_counterexample:
  "map_sum id (map cell_isCurrentDay) (CalendarGrid 0 0 (Date 0) []) \<noteq>
   map_sum id (map cell_isCurrentDay) (CalendarGrid 0 86400000 (Date 0) [])"
  by code_simp

end
